theory Spec2Isabelle
  imports Main
begin

section \<open>Memory model\<close>

text \<open>
  The program of \<^verbatim>\<open>main.cpp\<close> manipulates raw character buffers through
  \<^verbatim>\<open>new[]\<close>, \<^verbatim>\<open>delete[]\<close>, \<^verbatim>\<open>memcpy\<close> and \<^verbatim>\<open>strlen\<close>.
  The embedding keeps an explicit heap so that aliasing, release and out-of-range accesses are
  visible: a pointer is either \<^verbatim>\<open>nullptr\<close> or a block number with an offset inside the
  block; a block is a list of cells or has been released. A cell is \<open>None\<close> while its
  value is indeterminate (storage obtained by \<^verbatim>\<open>new char[n]\<close> without initialiser).

  Every access that the C++ language leaves undefined is a \<open>fault\<close> value of the model:
  the operations return \<open>fault + state\<close> with \<open>Inl\<close> for the fault.
  Values of type \<^verbatim>\<open>size_t\<close> are natural numbers: the only arithmetic of the program is the
  sum of two buffer lengths, which stays below the range of \<^verbatim>\<open>size_t\<close> for buffers that
  fit an address space. Allocation always succeeds (no \<^verbatim>\<open>std::bad_alloc\<close>), and a block
  number is never reused.
\<close>

datatype ptr = nullptr | Ptr nat nat

datatype block = Live "char option list" | Freed

datatype fault =
    NullDeref
  | WildPointer
  | UseAfterFree
  | DoubleFree
  | InvalidFree
  | OutOfBoundsRead
  | OutOfBoundsWrite
  | UninitRead
  | OverlappingCopy

text \<open>The three private members of \<^verbatim>\<open>struct My_string\<close>.\<close>

record My_string =
  m_init :: ptr
  m_length :: nat
  m_size :: nat

text \<open>
  The machine state: the heap, the objects of type \<^verbatim>\<open>My_string\<close> by the name of the
  variable that holds them (the identity that \<^verbatim>\<open>this != &rhs\<close> compares), and the text
  written to \<^verbatim>\<open>std::cout\<close> so far.
\<close>

record state =
  heap :: "block list"
  objs :: "string \<Rightarrow> My_string"
  out :: string

abbreviation NUL :: char where
  "NUL \<equiv> CHR 0x00"

abbreviation nl :: string where
  "nl \<equiv> [CHR 0x0A]"

definition and_then :: "fault + 'a \<Rightarrow> ('a \<Rightarrow> fault + 'b) \<Rightarrow> fault + 'b" where
  "and_then m f = (case m of Inl e \<Rightarrow> Inl e | Inr v \<Rightarrow> f v)"

definition print :: "state \<Rightarrow> string \<Rightarrow> state" where
  "print s str = s\<lparr>out := out s @ str\<rparr>"

definition set_init :: "state \<Rightarrow> string \<Rightarrow> ptr \<Rightarrow> state" where
  "set_init s x p = s\<lparr>objs := (objs s)(x := (objs s x)\<lparr>m_init := p\<rparr>)\<rparr>"

definition set_length :: "state \<Rightarrow> string \<Rightarrow> nat \<Rightarrow> state" where
  "set_length s x n = s\<lparr>objs := (objs s)(x := (objs s x)\<lparr>m_length := n\<rparr>)\<rparr>"

definition set_size :: "state \<Rightarrow> string \<Rightarrow> nat \<Rightarrow> state" where
  "set_size s x n = s\<lparr>objs := (objs s)(x := (objs s x)\<lparr>m_size := n\<rparr>)\<rparr>"

text \<open>
  \<^verbatim>\<open>new char[n]\<close> (cells indeterminate, \<open>fill = None\<close>) and \<^verbatim>\<open>new char[n]()\<close>
  (cells zero, \<open>fill = Some NUL\<close>): a fresh block of exactly \<open>n\<close> cells; the result is never
  \<^verbatim>\<open>nullptr\<close>, also for \<open>n = 0\<close>.
\<close>

definition new_char_array :: "state \<Rightarrow> nat \<Rightarrow> char option \<Rightarrow> state \<times> ptr" where
  "new_char_array s n fill =
     (s\<lparr>heap := heap s @ [Live (replicate n fill)]\<rparr>, Ptr (length (heap s)) 0)"

text \<open>
  \<^verbatim>\<open>delete[] p\<close>: nothing for \<^verbatim>\<open>nullptr\<close>; otherwise \<open>p\<close> must be the start of a block
  that has not been released yet.
\<close>

definition delete_array :: "state \<Rightarrow> ptr \<Rightarrow> fault + state" where
  "delete_array s p =
     (case p of
        nullptr \<Rightarrow> Inr s
      | Ptr b off \<Rightarrow>
          if length (heap s) \<le> b then Inl WildPointer
          else if 0 < off then Inl InvalidFree
          else (case heap s ! b of
                  Freed \<Rightarrow> Inl DoubleFree
                | Live cs \<Rightarrow> Inr (s\<lparr>heap := (heap s)[b := Freed]\<rparr>)))"

text \<open>The cells of the block a pointer points into, from the pointer to the block's end.\<close>

definition cells_at :: "state \<Rightarrow> ptr \<Rightarrow> fault + char option list" where
  "cells_at s p =
     (case p of
        nullptr \<Rightarrow> Inl NullDeref
      | Ptr b off \<Rightarrow>
          if length (heap s) \<le> b then Inl WildPointer
          else (case heap s ! b of
                  Freed \<Rightarrow> Inl UseAfterFree
                | Live cs \<Rightarrow> if length cs < off then Inl OutOfBoundsRead else Inr (drop off cs)))"

text \<open>
  \<^verbatim>\<open>memcpy(dst, src, n)\<close>. Copying no bytes touches no memory and is a no-operation for any
  pointers (as every implementation has it, also for \<^verbatim>\<open>nullptr\<close>). Copying \<open>n > 0\<close> bytes
  needs \<open>n\<close> cells readable at \<open>src\<close>, \<open>n\<close> cells writable at \<open>dst\<close>, and the two
  ranges must not overlap.
\<close>

definition memcpy :: "state \<Rightarrow> ptr \<Rightarrow> ptr \<Rightarrow> nat \<Rightarrow> fault + state" where
  "memcpy s dst src n =
     (if n = 0 then Inr s
      else
        (case src of
           nullptr \<Rightarrow> Inl NullDeref
         | Ptr sb soff \<Rightarrow>
            (case dst of
               nullptr \<Rightarrow> Inl NullDeref
             | Ptr db doff \<Rightarrow>
                 if length (heap s) \<le> sb then Inl WildPointer
                 else if length (heap s) \<le> db then Inl WildPointer
                 else
                   (case heap s ! sb of
                      Freed \<Rightarrow> Inl UseAfterFree
                    | Live scs \<Rightarrow>
                       (case heap s ! db of
                          Freed \<Rightarrow> Inl UseAfterFree
                        | Live dcs \<Rightarrow>
                            if length scs < soff + n then Inl OutOfBoundsRead
                            else if length dcs < doff + n then Inl OutOfBoundsWrite
                            else if sb = db \<and> soff < doff + n \<and> doff < soff + n
                              then Inl OverlappingCopy
                            else Inr (s\<lparr>heap := (heap s)[db := Live
                                   (take doff dcs @ take n (drop soff scs) @ drop (doff + n) dcs)]\<rparr>))))))"

text \<open>
  \<^verbatim>\<open>strlen\<close>: the number of cells before the first \<open>NUL\<close>. Running off the end of the
  block, or over an indeterminate cell, is a fault.
\<close>

fun scan_nul :: "char option list \<Rightarrow> fault + nat" where
  "scan_nul [] = Inl OutOfBoundsRead"
| "scan_nul (None # cs) = Inl UninitRead"
| "scan_nul (Some c # cs) =
     (if c = NUL then Inr 0
      else (case scan_nul cs of Inl e \<Rightarrow> Inl e | Inr k \<Rightarrow> Inr (Suc k)))"

definition strlen :: "state \<Rightarrow> ptr \<Rightarrow> fault + nat" where
  "strlen s p = (case cells_at s p of Inl e \<Rightarrow> Inl e | Inr cs \<Rightarrow> scan_nul cs)"

text \<open>\<^verbatim>\<open>&p[k]\<close>: the pointer \<open>k\<close> cells further in the same block.\<close>

definition ptr_add :: "ptr \<Rightarrow> nat \<Rightarrow> ptr" where
  "ptr_add p k = (case p of nullptr \<Rightarrow> nullptr | Ptr b off \<Rightarrow> Ptr b (off + k))"

text \<open>
  A string literal: static storage holding the characters and the terminating \<open>NUL\<close>,
  modelled as a block of its own that is never released.
\<close>

definition string_literal :: "state \<Rightarrow> string \<Rightarrow> state \<times> ptr" where
  "string_literal s str =
     (s\<lparr>heap := heap s @ [Live (map Some str @ [Some NUL])]\<rparr>, Ptr (length (heap s)) 0)"

section \<open>The class \<^verbatim>\<open>My_string\<close>\<close>

text \<open>\<^verbatim>\<open>My_string()\<close>, lines 21--25.\<close>

definition My_string_default :: "state \<Rightarrow> string \<Rightarrow> state" where
  "My_string_default s this =
     print (s\<lparr>objs := (objs s)(this := \<lparr>m_init = nullptr, m_length = 0, m_size = 0\<rparr>)\<rparr>)
       (''Default constructor has been called'' @ nl)"

text \<open>
  \<^verbatim>\<open>My_string(const char* rhs)\<close>, lines 28--34. The members are initialised in the order of
  their declaration (\<^verbatim>\<open>_length\<close>, then \<^verbatim>\<open>_size\<close>), each from \<^verbatim>\<open>strlen(rhs)\<close>; the
  body allocates \<^verbatim>\<open>_length\<close> zeroed cells and copies \<^verbatim>\<open>_length\<close> bytes.
\<close>

definition My_string_from_cstr :: "state \<Rightarrow> string \<Rightarrow> ptr \<Rightarrow> fault + state" where
  "My_string_from_cstr s this rhs =
     and_then (strlen s rhs) (\<lambda>n1.
     and_then (strlen s rhs) (\<lambda>n2.
       let s1 = set_size (set_length s this n1) this n2;
           (s2, p) = new_char_array s1 (m_length (objs s1 this)) (Some NUL);
           s3 = set_init s2 this p
       in memcpy s3 (m_init (objs s3 this)) rhs (m_length (objs s3 this))))"

text \<open>\<^verbatim>\<open>My_string(const My_string& rhs)\<close>, lines 37--43.\<close>

definition My_string_copy :: "state \<Rightarrow> string \<Rightarrow> string \<Rightarrow> fault + state" where
  "My_string_copy s this rhs =
     (let s1 = set_size (set_length s this (m_length (objs s rhs))) this (m_size (objs s rhs));
          (s2, p) = new_char_array s1 (m_length (objs s1 rhs)) None;
          s3 = set_init s2 this p
      in and_then (memcpy s3 (m_init (objs s3 this)) (m_init (objs s3 rhs)) (m_length (objs s3 rhs)))
           (\<lambda>s4. Inr (print s4 (''COPY constructor has been called'' @ nl))))"

text \<open>\<^verbatim>\<open>My_string(My_string&& rsh)\<close>, lines 46--57, statement by statement.\<close>

definition My_string_move :: "state \<Rightarrow> string \<Rightarrow> string \<Rightarrow> state" where
  "My_string_move s this rsh =
     (let s1 = set_init s this (m_init (objs s rsh));
          s2 = set_init s1 rsh nullptr;
          s3 = set_size s2 this (m_size (objs s2 rsh));
          s4 = set_length s3 this (m_length (objs s3 rsh));
          s5 = set_size s4 rsh 0;
          s6 = set_length s5 rsh 0
      in print s6 (''MOVE constructor has been called'' @ nl))"

text \<open>\<^verbatim>\<open>operator=(const My_string& rhs)\<close>, lines 60--72.\<close>

definition copy_assign :: "state \<Rightarrow> string \<Rightarrow> string \<Rightarrow> fault + state" where
  "copy_assign s this rhs =
     and_then (if m_init (objs s this) = nullptr then Inr s
               else delete_array s (m_init (objs s this))) (\<lambda>s1.
       let (s2, p) = new_char_array s1 (m_length (objs s1 rhs)) None;
           s3 = set_init s2 this p
       in and_then (memcpy s3 (m_init (objs s3 this)) (m_init (objs s3 rhs)) (m_length (objs s3 rhs)))
            (\<lambda>s4.
               let s5 = set_size s4 this (m_size (objs s4 rhs));
                   s6 = set_length s5 this (m_length (objs s5 rhs))
               in Inr (print s6 (''COPY assignment has been called'' @ nl))))"

text \<open>\<^verbatim>\<open>operator=(My_string&& rhs)\<close>, lines 75--95.\<close>

definition move_assign :: "state \<Rightarrow> string \<Rightarrow> string \<Rightarrow> fault + state" where
  "move_assign s this rhs =
     (if this = rhs then Inr s
      else
        and_then (delete_array s (m_init (objs s this))) (\<lambda>s1.
          let s2 = set_init s1 this (m_init (objs s1 rhs));
              s3 = set_length s2 this (m_length (objs s2 rhs));
              s4 = set_size s3 this (m_size (objs s3 rhs));
              s5 = set_init s4 rhs nullptr;
              s6 = set_length s5 rhs 0;
              s7 = set_size s6 rhs 0
          in Inr (print s7 (''MOVE assignment has been called'' @ nl))))"

text \<open>\<^verbatim>\<open>resize(size_t new_length)\<close>, lines 130--142.\<close>

definition resize :: "state \<Rightarrow> string \<Rightarrow> nat \<Rightarrow> fault + state" where
  "resize s this new_length =
     (let old = m_init (objs s this);
          (s1, aux) = new_char_array s (m_size (objs s this) + new_length) None
      in and_then (memcpy s1 aux (m_init (objs s1 this)) (m_length (objs s1 this))) (\<lambda>s2.
           let s3 = set_init s2 this aux
           in delete_array s3 old))"

text \<open>\<^verbatim>\<open>operator+=(const My_string& rhs)\<close>, lines 97--104.\<close>

definition plus_assign :: "state \<Rightarrow> string \<Rightarrow> string \<Rightarrow> fault + state" where
  "plus_assign s this rhs =
     and_then (if m_size (objs s this) \<le> m_length (objs s rhs)
               then resize s this (m_length (objs s rhs)) else Inr s) (\<lambda>s1.
       memcpy s1 (ptr_add (m_init (objs s1 this)) (m_length (objs s1 this)))
         (m_init (objs s1 rhs)) (m_length (objs s1 rhs)))"

text \<open>\<^verbatim>\<open>~My_string()\<close>, lines 106--110.\<close>

definition My_string_destroy :: "state \<Rightarrow> string \<Rightarrow> fault + state" where
  "My_string_destroy s this =
     and_then (delete_array s (m_init (objs s this))) (\<lambda>s1.
       Inr (print s1 (''DESTRUCTOR has been called'' @ nl)))"

text \<open>
  \<^verbatim>\<open>print_str(std::string obj_name)\<close>, lines 112--123. The loop evaluates
  \<^verbatim>\<open>strlen(_init)\<close> before every iteration and prints \<^verbatim>\<open>_init[i]\<close>.
\<close>

definition read_char :: "state \<Rightarrow> ptr \<Rightarrow> nat \<Rightarrow> fault + char" where
  "read_char s p i =
     (case cells_at s p of
        Inl e \<Rightarrow> Inl e
      | Inr cs \<Rightarrow>
          if length cs \<le> i then Inl OutOfBoundsRead
          else (case cs ! i of None \<Rightarrow> Inl UninitRead | Some c \<Rightarrow> Inr c))"

function print_loop :: "state \<Rightarrow> ptr \<Rightarrow> nat \<Rightarrow> fault + state" where
  "print_loop s p i =
     (case strlen s p of
        Inl e \<Rightarrow> Inl e
      | Inr n \<Rightarrow>
          if i < n then
            (case read_char s p i of
               Inl e \<Rightarrow> Inl e
             | Inr c \<Rightarrow> print_loop (print s [c]) p (Suc i))
          else Inr s)"
  by pat_completeness auto
termination
  by (relation "measure (\<lambda>(s, p, i). case strlen s p of Inl e \<Rightarrow> 0 | Inr n \<Rightarrow> n - i)")
     (auto simp: strlen_def cells_at_def print_def split: ptr.splits block.splits if_splits sum.splits)

definition print_str :: "state \<Rightarrow> string \<Rightarrow> string \<Rightarrow> fault + state" where
  "print_str s this obj_name =
     (if m_init (objs s this) = nullptr
      then Inr (print s (obj_name @ '' : No data available'' @ nl))
      else
        and_then (print_loop (print s (obj_name @ '' : '')) (m_init (objs s this)) 0) (\<lambda>s1.
          Inr (print s1 nl)))"

section \<open>The classes \<^verbatim>\<open>Std_string\<close> and \<^verbatim>\<open>My_custom\<close>\<close>

text \<open>
  \<^verbatim>\<open>Std_string\<close> wraps a \<^verbatim>\<open>std::string\<close>, \<^verbatim>\<open>My_custom\<close> wraps a
  \<^verbatim>\<open>Std_string\<close>. Neither holds a raw pointer, so their operations pass the objects as
  values, together with the text written to \<^verbatim>\<open>std::cout\<close>. The move assignment of
  \<^verbatim>\<open>std::string\<close> is library code: it gives the target the source's value and leaves the
  source with a valid value that the library does not specify, the parameter \<open>residue\<close>.
\<close>

record Std_string =
  std_string :: string

record My_custom =
  m_str :: Std_string

text \<open>\<^verbatim>\<open>Std_string()\<close>, lines 148--152.\<close>

definition Std_string_default :: "string \<Rightarrow> Std_string \<times> string" where
  "Std_string_default cout =
     (\<lparr>std_string = ''default''\<rparr>, cout @ ''Std_string - Default constructor called'' @ nl)"

text \<open>\<^verbatim>\<open>operator=(const Std_string& rhs)\<close>, lines 156--161.\<close>

definition Std_string_copy_assign :: "Std_string \<Rightarrow> Std_string \<Rightarrow> string \<Rightarrow> Std_string \<times> string" where
  "Std_string_copy_assign this rhs cout =
     (this\<lparr>std_string := std_string rhs\<rparr>, cout @ ''Std_string - Copy assignation called'' @ nl)"

text \<open>
  \<^verbatim>\<open>operator=(Std_string&& rhs)\<close>, lines 163--168, for two distinct objects: the result is
  the target, the source and the output.
\<close>

definition Std_string_move_assign ::
  "string \<Rightarrow> Std_string \<Rightarrow> Std_string \<Rightarrow> string \<Rightarrow> Std_string \<times> Std_string \<times> string" where
  "Std_string_move_assign residue this rhs cout =
     (this\<lparr>std_string := std_string rhs\<rparr>, rhs\<lparr>std_string := residue\<rparr>,
      cout @ ''Std_string - move assignation called'' @ nl)"

text \<open>\<^verbatim>\<open>~Std_string()\<close>, lines 170--173.\<close>

definition Std_string_destroy :: "Std_string \<Rightarrow> string \<Rightarrow> string" where
  "Std_string_destroy this cout = cout @ ''Std_string - Destructor called'' @ nl"

text \<open>\<^verbatim>\<open>My_custom()\<close>, lines 183--186: the member is default-constructed first.\<close>

definition My_custom_default :: "string \<Rightarrow> My_custom \<times> string" where
  "My_custom_default cout =
     (let (str, cout1) = Std_string_default cout
      in (\<lparr>m_str = str\<rparr>, cout1 @ ''My_custom-Default constructor called'' @ nl))"

text \<open>
  \<^verbatim>\<open>My_custom(const My_custom& rhs)\<close>, lines 188--192: the member is copy-constructed by the
  defaulted copy constructor of \<^verbatim>\<open>Std_string\<close>, which prints nothing.
\<close>

definition My_custom_copy :: "My_custom \<Rightarrow> string \<Rightarrow> My_custom \<times> string" where
  "My_custom_copy rhs cout =
     (\<lparr>m_str = \<lparr>std_string = std_string (m_str rhs)\<rparr>\<rparr>, cout @ ''My_custom-move failed!'' @ nl)"

text \<open>
  \<^verbatim>\<open>My_custom(My_custom&& rhs)\<close>, lines 195--199: no member initialiser, so the member is
  default-constructed, then move-assigned from \<^verbatim>\<open>rhs._str\<close>. The result is the new
  object, the source and the output.
\<close>

definition My_custom_move :: "string \<Rightarrow> My_custom \<Rightarrow> string \<Rightarrow> My_custom \<times> My_custom \<times> string" where
  "My_custom_move residue rhs cout =
     (let (str0, cout1) = Std_string_default cout;
          (str1, rhs_str, cout2) = Std_string_move_assign residue str0 (m_str rhs) cout1
      in (\<lparr>m_str = str1\<rparr>, rhs\<lparr>m_str := rhs_str\<rparr>,
          cout2 @ ''My_custom - move constructor called'' @ nl))"

text \<open>\<^verbatim>\<open>~My_custom()\<close>, lines 207--210: the body, then the member's destructor.\<close>

definition My_custom_destroy :: "My_custom \<Rightarrow> string \<Rightarrow> string" where
  "My_custom_destroy this cout =
     Std_string_destroy (m_str this) (cout @ ''My_custom - Destructor called'' @ nl)"

section \<open>The scenarios\<close>

definition initial :: state where
  "initial = \<lparr>heap = [], objs = (\<lambda>x. \<lparr>m_init = nullptr, m_length = 0, m_size = 0\<rparr>), out = []\<rparr>"

text \<open>
  \<^verbatim>\<open>custom_append()\<close>, lines 216--226, in two parts: the statements up to
  \<^verbatim>\<open>lhs += rhs\<close> (lines 218--224), then the rendering of \<^verbatim>\<open>lhs\<close> (line 225) and the
  destruction of the locals in the reverse order of their construction when the function
  returns. The initialisations \<^verbatim>\<open>My_string lhs = "..."\<close> construct \<^verbatim>\<open>lhs\<close> and \<^verbatim>\<open>rhs\<close>
  in place with the constructor from \<^verbatim>\<open>const char*\<close> (no temporary object).
\<close>

definition custom_append_build :: "state \<Rightarrow> fault + state" where
  "custom_append_build s =
     (let s0 = print s (''custom append (My_string)'' @ nl);
          (s1, lit1) = string_literal s0 ''first Element ''
      in and_then (My_string_from_cstr s1 ''lhs'' lit1) (\<lambda>s2.
           let (s3, lit2) = string_literal s2 ''second addition ''
           in and_then (My_string_from_cstr s3 ''rhs'' lit2) (\<lambda>s4.
                plus_assign s4 ''lhs'' ''rhs'')))"

definition custom_append :: "state \<Rightarrow> fault + state" where
  "custom_append s =
     and_then (custom_append_build s) (\<lambda>s5.
     and_then (print_str s5 ''lhs'' ''lhs'') (\<lambda>s6.
     and_then (My_string_destroy s6 ''rhs'') (\<lambda>s7.
       My_string_destroy s7 ''lhs'')))"

text \<open>\<^verbatim>\<open>case_4()\<close>, lines 270--277.\<close>

definition case_4 :: "string \<Rightarrow> string \<Rightarrow> string" where
  "case_4 residue cout =
     (let cout0 = cout @ ''Trying to move (Case 4)'' @ nl;
          (rhs, cout1) = My_custom_default cout0;
          (lhs, rhs1, cout2) = My_custom_move residue rhs cout1;
          cout3 = My_custom_destroy lhs cout2
      in My_custom_destroy rhs1 cout3)"

text \<open>
  A state for examples: \<^verbatim>\<open>My_string src("abc"); My_string dst("de");\<close> run from
  \<open>initial\<close>.
\<close>

definition sample :: state where
  "sample =
     (case (let (s1, lit1) = string_literal initial ''abc''
            in and_then (My_string_from_cstr s1 ''src'' lit1) (\<lambda>s2.
                 let (s3, lit2) = string_literal s2 ''de''
                 in My_string_from_cstr s3 ''dst'' lit2)) of
        Inl e \<Rightarrow> initial
      | Inr s \<Rightarrow> s)"

text \<open>
  A state with a duplicate, run from \<open>initial\<close>:
  \<^verbatim>\<open>My_string T("aaaaaaaaaaaaaaaaaaaaaaaa"); My_string S("bbbbbbbbbbbbbbbbbbbbbbbb"); T = S;\<close>
  \<^verbatim>\<open>My_string B("cccccccccccccccc");\<close> (two strings of 24 characters, one of 16).
\<close>

definition duplicated :: state where
  "duplicated =
     (case (let (s1, lit1) = string_literal initial ''aaaaaaaaaaaaaaaaaaaaaaaa''
            in and_then (My_string_from_cstr s1 ''T'' lit1) (\<lambda>s2.
                 let (s3, lit2) = string_literal s2 ''bbbbbbbbbbbbbbbbbbbbbbbb''
                 in and_then (My_string_from_cstr s3 ''S'' lit2) (\<lambda>s4.
                      and_then (copy_assign s4 ''T'' ''S'') (\<lambda>s5.
                        let (s6, lit3) = string_literal s5 ''cccccccccccccccc''
                        in My_string_from_cstr s6 ''B'' lit3)))) of
        Inl e \<Rightarrow> initial
      | Inr s \<Rightarrow> s)"

section \<open>Observations used to state the properties\<close>

text \<open>
  \<open>slice s p k n\<close> reads the \<open>n\<close> cells at positions \<open>k, ..., k + n - 1\<close> after the
  pointer \<open>p\<close>; reading no cell yields the empty list whatever the pointer. The content of an
  object is the first \<^verbatim>\<open>_length\<close> cells of the buffer its \<^verbatim>\<open>_init\<close> points to.
\<close>

definition slice :: "state \<Rightarrow> ptr \<Rightarrow> nat \<Rightarrow> nat \<Rightarrow> fault + char option list" where
  "slice s p k n =
     (if n = 0 then Inr []
      else (case cells_at s p of
              Inl e \<Rightarrow> Inl e
            | Inr cs \<Rightarrow>
                if length cs < k + n then Inl OutOfBoundsRead
                else Inr (take n (drop k cs))))"

definition content :: "state \<Rightarrow> string \<Rightarrow> fault + char option list" where
  "content s x = slice s (m_init (objs s x)) 0 (m_length (objs s x))"

text \<open>
  A well-formed object: its pointer is the empty marker and its length is 0, or its pointer is
  the start of a block that has not been released and holds at least \<^verbatim>\<open>_length\<close> cells.
\<close>

definition owns :: "state \<Rightarrow> string \<Rightarrow> bool" where
  "owns s x =
     (case m_init (objs s x) of
        nullptr \<Rightarrow> m_length (objs s x) = 0
      | Ptr b off \<Rightarrow>
          off = 0 \<and> b < length (heap s) \<and>
          (case heap s ! b of Freed \<Rightarrow> False | Live cs \<Rightarrow> m_length (objs s x) \<le> length cs))"

text \<open>A pointer that is the empty marker or points into a block that has been allocated.\<close>

definition allocated :: "state \<Rightarrow> ptr \<Rightarrow> bool" where
  "allocated s p = (case p of nullptr \<Rightarrow> True | Ptr b off \<Rightarrow> b < length (heap s))"

text \<open>Two pointers into the same block: the two objects would share one buffer.\<close>

definition same_block :: "ptr \<Rightarrow> ptr \<Rightarrow> bool" where
  "same_block p q =
     (case p of nullptr \<Rightarrow> False
      | Ptr b off \<Rightarrow> (case q of nullptr \<Rightarrow> False | Ptr c off' \<Rightarrow> b = c))"

text \<open>The empty-marker state of an object.\<close>

definition empty_marker :: My_string where
  "empty_marker = \<lparr>m_init = nullptr, m_length = 0, m_size = 0\<rparr>"

text \<open>The invariant \<^verbatim>\<open>_length <= _size\<close> on the objects of a set of variables.\<close>

definition cap_ge_len :: "string set \<Rightarrow> state \<Rightarrow> bool" where
  "cap_ge_len X s = (\<forall>x \<in> X. m_length (objs s x) \<le> m_size (objs s x))"

section \<open>Basic facts about the memory operations\<close>

lemma scan_nul_terminated:
  "NUL \<notin> set str \<Longrightarrow> scan_nul (map Some str @ Some NUL # rest) = Inr (length str)"
  by (induction str) auto

lemma strlen_terminated:
  "cells_at s p = Inr (map Some str @ Some NUL # rest) \<Longrightarrow> NUL \<notin> set str \<Longrightarrow>
   strlen s p = Inr (length str)"
  by (simp add: strlen_def scan_nul_terminated)

lemma cells_at_Inr:
  "cells_at s p = Inr cs \<Longrightarrow>
   \<exists>b off bs. p = Ptr b off \<and> b < length (heap s) \<and> heap s ! b = Live bs \<and>
     off \<le> length bs \<and> cs = drop off bs"
  by (auto simp: cells_at_def split: ptr.splits block.splits if_splits)

lemma My_string_all_fields [simp]:
  "(r::My_string)\<lparr>m_length := a, m_size := b, m_init := c\<rparr> = \<lparr>m_init = c, m_length = a, m_size = b\<rparr>"
  "(r::My_string)\<lparr>m_init := c, m_length := a, m_size := b\<rparr> = \<lparr>m_init = c, m_length = a, m_size = b\<rparr>"
  "(r::My_string)\<lparr>m_init := c, m_size := b, m_length := a\<rparr> = \<lparr>m_init = c, m_length = a, m_size = b\<rparr>"
  by (cases r; simp)+

lemma memcpy_frame:
  "memcpy s dst src n = Inr s' \<Longrightarrow>
   objs s' = objs s \<and> out s' = out s \<and> length (heap s') = length (heap s) \<and>
   (\<forall>b. \<not> same_block (Ptr b 0) dst \<longrightarrow> heap s' ! b = heap s ! b)"
  by (auto simp: memcpy_def same_block_def split: if_splits ptr.splits block.splits)

lemma delete_array_frame:
  "delete_array s p = Inr s' \<Longrightarrow>
   objs s' = objs s \<and> out s' = out s \<and> length (heap s') = length (heap s) \<and>
   (\<forall>b. \<not> same_block (Ptr b 0) p \<longrightarrow> heap s' ! b = heap s ! b)"
  by (auto simp: delete_array_def same_block_def split: if_splits ptr.splits block.splits)

lemma My_string_move_objs:
  "objs (My_string_move s t r) = (objs s)(t := objs s r, r := empty_marker)"
  by (cases "objs s r") (auto simp: My_string_move_def set_init_def set_length_def set_size_def print_def Let_def
      empty_marker_def fun_eq_iff)

lemma My_string_move_heap: "heap (My_string_move s t r) = heap s"
  by (simp add: My_string_move_def set_init_def set_length_def set_size_def print_def Let_def)

lemma cells_at_heap_eq:
  "heap s' = heap s \<Longrightarrow> cells_at s' p = cells_at s p"
  by (cases p) (simp_all add: cells_at_def)

lemma content_cong:
  "cells_at s' (m_init (objs s y)) = cells_at s (m_init (objs s y)) \<Longrightarrow> objs s' x = objs s y \<Longrightarrow>
   content s' x = content s y"
  by (simp add: content_def slice_def split: sum.splits)

lemma print_str_empty:
  "m_init (objs s x) = nullptr \<Longrightarrow>
   print_str s x nm = Inr (print s (nm @ '' : No data available'' @ nl))"
  by (simp add: print_str_def)

lemma delete_array_owns:
  assumes "owns s x"
  shows "\<exists>s'. delete_array s (m_init (objs s x)) = Inr s' \<and> objs s' = objs s \<and> out s' = out s \<and>
           length (heap s') = length (heap s) \<and>
           (\<forall>b. \<not> same_block (Ptr b 0) (m_init (objs s x)) \<longrightarrow> heap s' ! b = heap s ! b)"
  using assms
  by (auto simp: owns_def delete_array_def same_block_def split: ptr.splits block.splits)

lemma cells_at_frame:
  assumes "length (heap s') = length (heap s)"
    and "\<forall>b. \<not> same_block (Ptr b 0) q \<longrightarrow> heap s' ! b = heap s ! b"
    and "\<not> same_block p q"
  shows "cells_at s' p = cells_at s p"
  using assms by (auto simp: cells_at_def same_block_def split: ptr.splits)

lemma move_assign_effect:
  assumes "t \<noteq> r" "owns s t" "\<not> same_block (m_init (objs s t)) (m_init (objs s r))"
  shows "\<exists>s'. move_assign s t r = Inr s' \<and> objs s' = (objs s)(t := objs s r, r := empty_marker) \<and>
            out s' = out s @ ''MOVE assignment has been called'' @ nl \<and>
            length (heap s') = length (heap s) \<and>
            (\<forall>b. \<not> same_block (Ptr b 0) (m_init (objs s t)) \<longrightarrow> heap s' ! b = heap s ! b)"
proof -
  from delete_array_owns[OF assms(2)] obtain s1 where
    d: "delete_array s (m_init (objs s t)) = Inr s1" "objs s1 = objs s" "out s1 = out s"
       "length (heap s1) = length (heap s)"
       "\<forall>b. \<not> same_block (Ptr b 0) (m_init (objs s t)) \<longrightarrow> heap s1 ! b = heap s ! b"
    by blast
  show ?thesis
    using assms(1) d
    by (cases "objs s r")
       (auto simp: move_assign_def and_then_def set_init_def set_length_def set_size_def print_def
        Let_def empty_marker_def fun_eq_iff)
qed

lemma same_block_sym: "same_block p q = same_block q p"
  by (auto simp: same_block_def split: ptr.splits)

lemma sample_eq:
  "sample = \<lparr>heap = [Live (map Some ''abc'' @ [Some NUL]), Live (map Some ''abc''),
                     Live (map Some ''de'' @ [Some NUL]), Live (map Some ''de'')],
             objs = (\<lambda>x. \<lparr>m_init = nullptr, m_length = 0, m_size = 0\<rparr>)
                      (''src'' := \<lparr>m_init = Ptr 1 0, m_length = 3, m_size = 3\<rparr>,
                       ''dst'' := \<lparr>m_init = Ptr 3 0, m_length = 2, m_size = 2\<rparr>),
             out = []\<rparr>"
  by (simp add: sample_def initial_def string_literal_def My_string_from_cstr_def and_then_def
      strlen_def cells_at_def set_length_def set_size_def set_init_def new_char_array_def
      memcpy_def Let_def eval_nat_numeral)

section \<open>Effects of duplication and append\<close>

lemma owns_content:
  "owns s x \<Longrightarrow> \<exists>cs. content s x = Inr cs \<and> length cs = m_length (objs s x)"
  by (auto simp: owns_def content_def slice_def cells_at_def split: ptr.splits block.splits)

lemma My_string_copy_effect:
  assumes "t \<noteq> r" "owns s r" "content s r = Inr cs"
  shows "My_string_copy s t r =
           Inr (s\<lparr>heap := heap s @ [Live cs],
                  objs := (objs s)(t := \<lparr>m_init = Ptr (length (heap s)) 0,
                                          m_length = m_length (objs s r), m_size = m_size (objs s r)\<rparr>),
                  out := out s @ ''COPY constructor has been called'' @ nl\<rparr>)"
  using assms
  by (auto simp: My_string_copy_def owns_def content_def slice_def cells_at_def and_then_def print_def
      set_length_def set_size_def set_init_def new_char_array_def memcpy_def nth_append Let_def
      split: ptr.splits block.splits if_splits)

lemma copy_assign_effect:
  assumes "t \<noteq> r" "owns s t" "owns s r"
    and "\<not> same_block (m_init (objs s t)) (m_init (objs s r))" "content s r = Inr cs"
  shows "\<exists>h. copy_assign s t r =
           Inr (s\<lparr>heap := h @ [Live cs],
                  objs := (objs s)(t := \<lparr>m_init = Ptr (length (heap s)) 0,
                                          m_length = m_length (objs s r), m_size = m_size (objs s r)\<rparr>),
                  out := out s @ ''COPY assignment has been called'' @ nl\<rparr>) \<and>
           length h = length (heap s) \<and>
           (\<forall>b. \<not> same_block (Ptr b 0) (m_init (objs s t)) \<longrightarrow> h ! b = heap s ! b)"
proof (cases "m_init (objs s t)")
  case nullptr
  then show ?thesis
    using assms
    by (intro exI[of _ "heap s"])
       (auto simp: copy_assign_def owns_def content_def slice_def cells_at_def and_then_def print_def
        set_length_def set_size_def set_init_def new_char_array_def memcpy_def nth_append Let_def
        split: ptr.splits block.splits if_splits)
next
  case (Ptr b off)
  then show ?thesis
    using assms
    by (intro exI[of _ "(heap s)[b := Freed]"])
       (auto simp: copy_assign_def owns_def content_def slice_def cells_at_def and_then_def print_def
        delete_array_def same_block_def list_update_append
        set_length_def set_size_def set_init_def new_char_array_def memcpy_def nth_append Let_def
        split: ptr.splits block.splits if_splits)
qed

lemma plus_assign_fields:
  assumes "plus_assign s a b = Inr s'"
  shows "m_length (objs s' x) = m_length (objs s x) \<and> m_size (objs s' x) = m_size (objs s x) \<and>
         (x \<noteq> a \<longrightarrow> objs s' x = objs s x) \<and> out s' = out s"
  using assms
  by (auto simp: plus_assign_def resize_def and_then_def new_char_array_def set_init_def Let_def
      dest!: memcpy_frame delete_array_frame split: if_splits sum.splits)

lemma plus_assign_written_no_resize:
  assumes "memcpy s (ptr_add (m_init (objs s a)) k) (m_init (objs s b)) (m_length (objs s b)) = Inr s'"
    and "owns s b"
  shows "slice s' (m_init (objs s' a)) k (m_length (objs s b)) = content s b"
  using assms
  by (auto simp: memcpy_def ptr_add_def owns_def content_def slice_def cells_at_def
      split: if_splits ptr.splits block.splits)

lemma resize_Inr:
  assumes "resize s a n = Inr s1" and "allocated s (m_init (objs s a))"
  shows "\<exists>h cs. heap s1 = h @ [Live cs] \<and>
           objs s1 = (objs s)(a := (objs s a)\<lparr>m_init := Ptr (length (heap s)) 0\<rparr>) \<and>
           out s1 = out s \<and>
           length h = length (heap s) \<and> length cs = m_size (objs s a) + n \<and>
           (\<forall>k. \<not> same_block (Ptr k 0) (m_init (objs s a)) \<longrightarrow> h ! k = heap s ! k) \<and>
           (\<forall>k off. m_init (objs s a) = Ptr k off \<longrightarrow> h ! k = Freed) \<and>
           (0 < m_length (objs s a) \<longrightarrow>
              slice s (m_init (objs s a)) 0 (m_length (objs s a)) = Inr (take (m_length (objs s a)) cs))"
proof (cases "m_init (objs s a)")
  case nullptr
  then show ?thesis
    using assms
    by (intro exI[of _ "heap s"])
       (auto simp: resize_def and_then_def new_char_array_def set_init_def Let_def delete_array_def
          memcpy_def split: if_splits)
next
  case (Ptr k off)
  show ?thesis
  proof (cases "m_length (objs s a) = 0")
    case True
    then show ?thesis
      using assms Ptr
      by (intro exI[of _ "(heap s)[k := Freed]"])
         (auto simp: resize_def and_then_def new_char_array_def set_init_def Let_def delete_array_def
            memcpy_def same_block_def list_update_append allocated_def split: if_splits block.splits)
  next
    case False
    then show ?thesis
      using assms Ptr
      by (intro exI[of _ "(heap s)[k := Freed]"])
         (auto simp: resize_def and_then_def new_char_array_def set_init_def Let_def delete_array_def
            memcpy_def same_block_def list_update_append nth_append slice_def cells_at_def allocated_def
            split: if_splits block.splits)
  qed
qed

lemma plus_assign_written:
  assumes pa: "plus_assign s a b = Inr s'"
    and al: "allocated s (m_init (objs s a))" and ow: "owns s b"
  shows "slice s' (m_init (objs s' a)) (m_length (objs s a)) (m_length (objs s b)) = content s b"
proof (cases "m_size (objs s a) \<le> m_length (objs s b)")
  case False
  with pa have "memcpy s (ptr_add (m_init (objs s a)) (m_length (objs s a))) (m_init (objs s b))
                  (m_length (objs s b)) = Inr s'"
    by (simp add: plus_assign_def and_then_def)
  then show ?thesis
    using ow by (rule plus_assign_written_no_resize)
next
  case True
  with pa obtain s1 where
    rs: "resize s a (m_length (objs s b)) = Inr s1" and
    mc: "memcpy s1 (ptr_add (m_init (objs s1 a)) (m_length (objs s1 a))) (m_init (objs s1 b))
           (m_length (objs s1 b)) = Inr s'"
    by (auto simp: plus_assign_def and_then_def split: sum.splits)
  from resize_Inr[OF rs al] obtain h cs where
    r: "heap s1 = h @ [Live cs]"
       "objs s1 = (objs s)(a := (objs s a)\<lparr>m_init := Ptr (length (heap s)) 0\<rparr>)"
       "length h = length (heap s)" "length cs = m_size (objs s a) + m_length (objs s b)"
       "\<forall>k. \<not> same_block (Ptr k 0) (m_init (objs s a)) \<longrightarrow> h ! k = heap s ! k"
       "\<forall>k off. m_init (objs s a) = Ptr k off \<longrightarrow> h ! k = Freed"
       "0 < m_length (objs s a) \<longrightarrow>
          slice s (m_init (objs s a)) 0 (m_length (objs s a)) = Inr (take (m_length (objs s a)) cs)"
    by (elim exE conjE)
  show ?thesis
  proof (cases "m_length (objs s b) = 0")
    case True
    then show ?thesis
      by (simp add: slice_def content_def)
  next
    case pos: False
    show ?thesis
    proof (cases "b = a")
      case True
      then show ?thesis
        using mc r pos
        by (auto simp: memcpy_def ptr_add_def content_def slice_def cells_at_def nth_append
            split: if_splits)
    next
      case False
      from ow pos obtain sb bs where
        b: "m_init (objs s b) = Ptr sb 0" "sb < length (heap s)" "heap s ! sb = Live bs"
           "m_length (objs s b) \<le> length bs"
        by (auto simp: owns_def split: ptr.splits block.splits)
      have "\<exists>x. h ! sb = Live x"
        using mc r(1-3) False pos b
        by (auto simp: memcpy_def ptr_add_def nth_append split: if_splits block.splits)
      with r(6) have "\<not> same_block (Ptr sb 0) (m_init (objs s a))"
        by (auto simp: same_block_def split: ptr.splits)
      with r(5) have "h ! sb = heap s ! sb"
        by blast
      then show ?thesis
        using mc r False pos b
        by (auto simp: memcpy_def ptr_add_def content_def slice_def cells_at_def nth_append
            split: if_splits block.splits)
    qed
  qed
qed

lemma plus_assign_allocated:
  assumes "plus_assign s a b = Inr s'" and "allocated s (m_init (objs s a))"
  shows "allocated s' (m_init (objs s' a))"
proof (cases "m_size (objs s a) \<le> m_length (objs s b)")
  case False
  with assms show ?thesis
    by (auto simp: plus_assign_def and_then_def allocated_def dest!: memcpy_frame split: ptr.splits)
next
  case True
  with assms(1) obtain s1 where
    rs: "resize s a (m_length (objs s b)) = Inr s1" and
    mc: "memcpy s1 (ptr_add (m_init (objs s1 a)) (m_length (objs s1 a))) (m_init (objs s1 b))
           (m_length (objs s1 b)) = Inr s'"
    by (auto simp: plus_assign_def and_then_def split: sum.splits)
  from resize_Inr[OF rs assms(2)] memcpy_frame[OF mc] show ?thesis
    by (auto simp: allocated_def)
qed

lemma cells_at_block_eq:
  assumes "allocated s p"
    and "\<forall>k off. p = Ptr k off \<longrightarrow> k < length (heap s) \<longrightarrow> heap s' ! k = heap s ! k"
    and "length (heap s) \<le> length (heap s')"
  shows "cells_at s' p = cells_at s p"
  using assms by (cases p) (auto simp: cells_at_def allocated_def)

lemma same_block_ptr_add: "same_block p (ptr_add q k) = same_block p q"
  by (auto simp: same_block_def ptr_add_def split: ptr.splits)

lemma plus_assign_frame:
  assumes pa: "plus_assign s a b = Inr s'"
    and al: "allocated s (m_init (objs s a))"
    and p: "allocated s p" "\<not> same_block p (m_init (objs s a))"
  shows "cells_at s' p = cells_at s p"
proof (cases "m_size (objs s a) \<le> m_length (objs s b)")
  case False
  with pa have mc: "memcpy s (ptr_add (m_init (objs s a)) (m_length (objs s a))) (m_init (objs s b))
                  (m_length (objs s b)) = Inr s'"
    by (simp add: plus_assign_def and_then_def)
  show ?thesis
  proof (rule cells_at_block_eq[OF p(1)])
    show "length (heap s) \<le> length (heap s')"
      using memcpy_frame[OF mc] by simp
    show "\<forall>k off. p = Ptr k off \<longrightarrow> k < length (heap s) \<longrightarrow> heap s' ! k = heap s ! k"
    proof (intro allI impI)
      fix k off assume k: "p = Ptr k off" "k < length (heap s)"
      then have "\<not> same_block (Ptr k 0) (m_init (objs s a))"
        using p(2) by (auto simp: same_block_def split: ptr.splits)
      then have "\<not> same_block (Ptr k 0) (ptr_add (m_init (objs s a)) (m_length (objs s a)))"
        by (simp add: same_block_ptr_add)
      with memcpy_frame[OF mc] show "heap s' ! k = heap s ! k"
        by blast
    qed
  qed
next
  case True
  with pa obtain s1 where
    rs: "resize s a (m_length (objs s b)) = Inr s1" and
    mc: "memcpy s1 (ptr_add (m_init (objs s1 a)) (m_length (objs s1 a))) (m_init (objs s1 b))
           (m_length (objs s1 b)) = Inr s'"
    by (auto simp: plus_assign_def and_then_def split: sum.splits)
  from resize_Inr[OF rs al] obtain h cs where
    r: "heap s1 = h @ [Live cs]"
       "objs s1 = (objs s)(a := (objs s a)\<lparr>m_init := Ptr (length (heap s)) 0\<rparr>)"
       "length h = length (heap s)"
       "\<forall>k. \<not> same_block (Ptr k 0) (m_init (objs s a)) \<longrightarrow> h ! k = heap s ! k"
    by (elim exE conjE)
  show ?thesis
  proof (rule cells_at_block_eq[OF p(1)])
    show "length (heap s) \<le> length (heap s')"
      using memcpy_frame[OF mc] r by simp
    show "\<forall>k off. p = Ptr k off \<longrightarrow> k < length (heap s) \<longrightarrow> heap s' ! k = heap s ! k"
    proof (intro allI impI)
      fix k off assume k: "p = Ptr k off" "k < length (heap s)"
      then have "\<not> same_block (Ptr k 0) (m_init (objs s a))"
        using p(2) by (auto simp: same_block_def split: ptr.splits)
      with r(4) have "h ! k = heap s ! k"
        by blast
      moreover have "\<not> same_block (Ptr k 0) (ptr_add (m_init (objs s1 a)) (m_length (objs s1 a)))"
        using k(2) by (simp add: r(2) same_block_def ptr_add_def)
      with memcpy_frame[OF mc] have "heap s' ! k = heap s1 ! k"
        by blast
      ultimately show "heap s' ! k = heap s ! k"
        using r(1,3) k(2) by (simp add: nth_append)
    qed
  qed
qed

lemma owns_allocated: "owns s x \<Longrightarrow> allocated s (m_init (objs s x))"
  by (auto simp: owns_def allocated_def split: ptr.splits)

lemma plus_assign_sample:
  "plus_assign sample ''dst'' ''src'' =
     Inr \<lparr>heap = [Live (map Some ''abc'' @ [Some NUL]), Live (map Some ''abc''),
                   Live (map Some ''de'' @ [Some NUL]), Freed, Live (map Some ''deabc'')],
           objs = (\<lambda>x. \<lparr>m_init = nullptr, m_length = 0, m_size = 0\<rparr>)
                    (''src'' := \<lparr>m_init = Ptr 1 0, m_length = 3, m_size = 3\<rparr>,
                     ''dst'' := \<lparr>m_init = Ptr 4 0, m_length = 2, m_size = 2\<rparr>),
           out = []\<rparr>"
  by (simp add: sample_eq plus_assign_def resize_def and_then_def new_char_array_def set_init_def
      memcpy_def delete_array_def ptr_add_def Let_def eval_nat_numeral)

text \<open>
  What holds after duplicating \<open>S\<close> into \<open>T\<close>, for a result state whose heap is the old one
  (but for the block of \<open>q\<close>, the old pointer of \<open>T\<close>) plus one block holding the content
  of \<open>S\<close>.
\<close>

lemma duplicate_post:
  assumes ts: "T \<noteq> S" and ow: "owns s S" and cs: "content s S = Inr cs"
    and hp: "heap s' = h @ [Live cs]" "length h = length (heap s)"
      "\<forall>b. \<not> same_block (Ptr b 0) q \<longrightarrow> h ! b = heap s ! b"
      "\<not> same_block q (m_init (objs s S))"
    and ob: "objs s' = (objs s)(T := \<lparr>m_init = Ptr (length (heap s)) 0,
                                      m_length = m_length (objs s S), m_size = m_size (objs s S)\<rparr>)"
  shows "objs s' S = objs s S \<and>
         cells_at s' (m_init (objs s' S)) = cells_at s (m_init (objs s S)) \<and>
         content s' S = content s S \<and>
         content s' T = content s S \<and>
         \<not> same_block (m_init (objs s' T)) (m_init (objs s' S)) \<and>
         (\<forall>B s''. plus_assign s' T B = Inr s'' \<longrightarrow>
            objs s'' S = objs s S \<and>
            cells_at s'' (m_init (objs s'' S)) = cells_at s (m_init (objs s S)) \<and>
            content s'' S = content s S)"
proof -
  have o: "objs s' S = objs s S"
    using ts by (simp add: ob)
  have len: "length cs = m_length (objs s S)"
    using owns_content[OF ow] cs by auto
  have alS: "allocated s (m_init (objs s S))"
    using ow by (rule owns_allocated)
  have c: "cells_at s' (m_init (objs s S)) = cells_at s (m_init (objs s S))"
  proof (rule cells_at_block_eq[OF alS])
    show "length (heap s) \<le> length (heap s')"
      by (simp add: hp)
    show "\<forall>k off. m_init (objs s S) = Ptr k off \<longrightarrow> k < length (heap s) \<longrightarrow> heap s' ! k = heap s ! k"
    proof (intro allI impI)
      fix k off assume k: "m_init (objs s S) = Ptr k off" "k < length (heap s)"
      with hp(4) have "\<not> same_block (Ptr k 0) q"
        by (auto simp: same_block_def split: ptr.splits)
      with hp(3) have "h ! k = heap s ! k"
        by blast
      then show "heap s' ! k = heap s ! k"
        using k(2) hp(1,2) by (simp add: nth_append)
    qed
  qed
  have cS: "content s' S = content s S"
    using c o by (rule content_cong)
  have "content s' T = Inr cs"
    using len by (auto simp: content_def slice_def cells_at_def ob hp(1) hp(2)[symmetric])
  then have cT: "content s' T = content s S"
    by (simp add: cs)
  have d: "\<not> same_block (m_init (objs s' T)) (m_init (objs s' S))"
    using alS ts by (auto simp: ob same_block_def allocated_def split: ptr.splits)
  have later: "objs s'' S = objs s S \<and>
            cells_at s'' (m_init (objs s'' S)) = cells_at s (m_init (objs s S)) \<and>
            content s'' S = content s S"
    if pa: "plus_assign s' T B = Inr s''" for B s''
  proof -
    have o2: "objs s'' S = objs s' S"
      using plus_assign_fields[OF pa, of S] ts by simp
    have alT: "allocated s' (m_init (objs s' T))"
      by (simp add: ob allocated_def hp)
    have alS': "allocated s' (m_init (objs s S))"
      using alS by (auto simp: allocated_def hp split: ptr.splits)
    have "cells_at s'' (m_init (objs s S)) = cells_at s' (m_init (objs s S))"
      using pa alT alS' d by (intro plus_assign_frame) (simp_all add: o same_block_sym)
    with c have c2: "cells_at s'' (m_init (objs s S)) = cells_at s (m_init (objs s S))"
      by simp
    have "content s'' S = content s S"
      using c2 by (rule content_cong) (simp add: o2 o)
    with o2 o c2 show ?thesis
      by simp
  qed
  have c': "cells_at s' (m_init (objs s' S)) = cells_at s (m_init (objs s S))"
    using c o by simp
  show ?thesis
    using o c' cS cT d later by blast
qed

text \<open>
  An append of fewer bytes than the capacity to an object whose buffer is full does not grow
  the buffer and writes past its end.
\<close>

lemma plus_assign_full_buffer_overruns:
  assumes "m_init (objs s a) = Ptr k 0" and "k < length (heap s)" and "heap s ! k = Live cs"
    and "length cs = m_size (objs s a)" and "m_length (objs s a) = m_size (objs s a)"
    and "owns s b" and "0 < m_length (objs s b)" and "m_length (objs s b) < m_size (objs s a)"
  shows "plus_assign s a b = Inl OutOfBoundsWrite"
  using assms
  by (auto simp: plus_assign_def and_then_def memcpy_def ptr_add_def owns_def
      split: ptr.splits block.splits)

text \<open>The guard of the move assignment: assigning an object to itself changes nothing.\<close>

lemma move_self_assign_noop: "move_assign s x x = Inr s"
  by (simp add: move_assign_def)

section \<open>Rendering a buffer without terminator\<close>

lemma scan_nul_unterminated:
  "NUL \<notin> set str \<Longrightarrow> scan_nul (map Some str) = Inl OutOfBoundsRead"
  by (induction str) auto

lemma print_loop_fault: "strlen s p = Inl e \<Longrightarrow> print_loop s p i = Inl e"
  by (subst print_loop.simps) simp

lemma strlen_print: "strlen (print s str) p = strlen s p"
  by (cases p) (simp_all add: strlen_def cells_at_def print_def)

lemma print_str_unterminated:
  assumes "m_init (objs s x) = Ptr b 0" "b < length (heap s)" "heap s ! b = Live (map Some str)"
    and "NUL \<notin> set str"
  shows "print_str s x nm = Inl OutOfBoundsRead"
proof -
  have "strlen s (Ptr b 0) = Inl OutOfBoundsRead"
    using assms(2-4) by (simp add: strlen_def cells_at_def scan_nul_unterminated)
  then have "print_loop (print s (nm @ '' : '')) (Ptr b 0) 0 = Inl OutOfBoundsRead"
    by (intro print_loop_fault) (simp add: strlen_print)
  then show ?thesis
    using assms(1) by (simp add: print_str_def and_then_def print_def)
qed

section \<open>Effects on the members\<close>

lemma My_string_default_objs:
  "objs (My_string_default s t) = (objs s)(t := empty_marker)"
  by (simp add: My_string_default_def print_def empty_marker_def)

lemma My_string_from_cstr_fields:
  assumes "My_string_from_cstr s t p = Inr s'"
  shows "m_length (objs s' t) = m_size (objs s' t) \<and> (\<forall>x. x \<noteq> t \<longrightarrow> objs s' x = objs s x)"
  using assms
  by (auto simp: My_string_from_cstr_def and_then_def new_char_array_def set_init_def
      set_length_def set_size_def Let_def dest!: memcpy_frame split: sum.splits)

lemma My_string_copy_fields:
  assumes "My_string_copy s t r = Inr s'"
  shows "m_length (objs s' t) = m_length (objs s r) \<and> m_size (objs s' t) = m_size (objs s r) \<and>
         (\<forall>x. x \<noteq> t \<longrightarrow> objs s' x = objs s x)"
  using assms
  by (auto simp: My_string_copy_def and_then_def new_char_array_def set_init_def print_def
      set_length_def set_size_def Let_def dest!: memcpy_frame split: sum.splits)

lemma copy_assign_fields:
  assumes "copy_assign s t r = Inr s'"
  shows "m_length (objs s' t) = m_length (objs s r) \<and> m_size (objs s' t) = m_size (objs s r) \<and>
         (\<forall>x. x \<noteq> t \<longrightarrow> objs s' x = objs s x)"
  using assms
  by (auto simp: copy_assign_def and_then_def new_char_array_def set_init_def print_def
      set_length_def set_size_def Let_def dest!: memcpy_frame delete_array_frame
      split: sum.splits if_splits)

lemma move_assign_fields:
  assumes "move_assign s t r = Inr s'" and "t \<noteq> r"
  shows "objs s' = (objs s)(t := objs s r, r := empty_marker) \<and>
         heap s' = heap (case delete_array s (m_init (objs s t)) of Inr s1 \<Rightarrow> s1 | Inl e \<Rightarrow> s)"
  using assms
  by (cases "objs s r")
     (auto simp: move_assign_def and_then_def set_init_def print_def empty_marker_def fun_eq_iff
      set_length_def set_size_def Let_def dest!: delete_array_frame
      split: sum.splits if_splits)

lemma destroy_empty:
  "objs s x = empty_marker \<Longrightarrow>
   My_string_destroy s x = Inr (print s (''DESTRUCTOR has been called'' @ nl))"
  by (simp add: My_string_destroy_def delete_array_def and_then_def empty_marker_def)

lemma cap_ge_len_insertI:
  assumes "cap_ge_len X s" and "m_length (objs s' t) \<le> m_size (objs s' t)"
    and "\<forall>x. x \<noteq> t \<longrightarrow> objs s' x = objs s x"
  shows "cap_ge_len (insert t X) s'"
  unfolding cap_ge_len_def
proof
  fix x assume "x \<in> insert t X"
  show "m_length (objs s' x) \<le> m_size (objs s' x)"
  proof (cases "x = t")
    case True
    then show ?thesis using assms(2) by simp
  next
    case False
    with \<open>x \<in> insert t X\<close> assms(1,3) show ?thesis
      by (simp add: cap_ge_len_def)
  qed
qed

section \<open>The append scenario, evaluated\<close>

lemma custom_append_build_initial:
  "custom_append_build initial =
     Inr \<lparr>heap = [Live (map Some ''first Element '' @ [Some NUL]), Freed,
                   Live (map Some ''second addition '' @ [Some NUL]),
                   Live (map Some ''second addition ''),
                   Live (map Some ''first Element second addition '')],
           objs = (\<lambda>x. \<lparr>m_init = nullptr, m_length = 0, m_size = 0\<rparr>)
                    (''rhs'' := \<lparr>m_init = Ptr 3 0, m_length = 16, m_size = 16\<rparr>,
                     ''lhs'' := \<lparr>m_init = Ptr 4 0, m_length = 14, m_size = 14\<rparr>),
           out = ''custom append (My_string)'' @ nl\<rparr>"
  by (simp add: custom_append_build_def initial_def print_def string_literal_def
      My_string_from_cstr_def and_then_def strlen_def cells_at_def
      set_length_def set_size_def set_init_def new_char_array_def memcpy_def
      plus_assign_def resize_def delete_array_def ptr_add_def Let_def eval_nat_numeral)

section \<open>Append to a duplicate\<close>

text \<open>
  The buffer of a duplicate has exactly \<^verbatim>\<open>_length\<close> cells. When the source has
  \<^verbatim>\<open>_length = _size\<close>, as every constructed object has, an append of fewer bytes than
  \<^verbatim>\<open>_size\<close> to the duplicate does not grow the buffer and writes past its end.
\<close>

lemma append_to_duplicate_overruns:
  assumes "T \<noteq> S" and "owns s S" and "m_length (objs s S) = m_size (objs s S)"
    and "My_string_copy s T S = Inr s'"
    and "owns s' B" and "0 < m_length (objs s' B)" and "m_length (objs s' B) < m_size (objs s S)"
  shows "plus_assign s' T B = Inl OutOfBoundsWrite"
proof -
  from owns_content[OF assms(2)] obtain cs where
    cs: "content s S = Inr cs" "length cs = m_length (objs s S)"
    by blast
  from My_string_copy_effect[OF assms(1,2) cs(1)] assms(4)
  have s': "s' = s\<lparr>heap := heap s @ [Live cs],
                  objs := (objs s)(T := \<lparr>m_init = Ptr (length (heap s)) 0,
                                          m_length = m_length (objs s S), m_size = m_size (objs s S)\<rparr>),
                  out := out s @ ''COPY constructor has been called'' @ nl\<rparr>"
    by simp
  show ?thesis
    using assms(3,5-7) cs(2)
    by (intro plus_assign_full_buffer_overruns[where k = "length (heap s)" and cs = cs])
       (simp_all add: s')
qed

lemma duplicated_eq:
  "duplicated =
     \<lparr>heap = [Live (map Some ''aaaaaaaaaaaaaaaaaaaaaaaa'' @ [Some NUL]), Freed,
              Live (map Some ''bbbbbbbbbbbbbbbbbbbbbbbb'' @ [Some NUL]),
              Live (map Some ''bbbbbbbbbbbbbbbbbbbbbbbb''),
              Live (map Some ''bbbbbbbbbbbbbbbbbbbbbbbb''),
              Live (map Some ''cccccccccccccccc'' @ [Some NUL]),
              Live (map Some ''cccccccccccccccc'')],
      objs = (\<lambda>x. \<lparr>m_init = nullptr, m_length = 0, m_size = 0\<rparr>)
               (''S'' := \<lparr>m_init = Ptr 3 0, m_length = 24, m_size = 24\<rparr>,
                ''T'' := \<lparr>m_init = Ptr 4 0, m_length = 24, m_size = 24\<rparr>,
                ''B'' := \<lparr>m_init = Ptr 6 0, m_length = 16, m_size = 16\<rparr>),
      out = ''COPY assignment has been called'' @ nl\<rparr>"
  by (simp add: duplicated_def initial_def string_literal_def My_string_from_cstr_def and_then_def
      strlen_def cells_at_def set_length_def set_size_def set_init_def new_char_array_def
      memcpy_def copy_assign_def delete_array_def print_def Let_def eval_nat_numeral fun_eq_iff)

section \<open>Construction from a byte sequence\<close>

text \<open>
  Claim C4. For every null-terminated input (the cells at \<open>rhs\<close> are the characters
  \<open>str\<close>, none of them \<open>NUL\<close>, followed by \<open>NUL\<close>), the constructor returns without
  fault; its only effects are one new block of exactly \<open>length str\<close> cells (no cell for a
  terminator) holding the characters of \<open>str\<close>, and the object \<open>this\<close> pointing to the
  start of that block with \<^verbatim>\<open>_length\<close> and \<^verbatim>\<open>_size\<close> both \<open>length str\<close>.
\<close>

theorem from_cstr_exact:
  assumes "cells_at s rhs = Inr (map Some str @ Some NUL # rest)" and "NUL \<notin> set str"
  shows "My_string_from_cstr s this rhs =
           Inr (s\<lparr>heap := heap s @ [Live (map Some str)],
                  objs := (objs s)(this := \<lparr>m_init = Ptr (length (heap s)) 0,
                                             m_length = length str, m_size = length str\<rparr>)\<rparr>)"
proof -
  from cells_at_Inr[OF assms(1)] obtain b off bs where
    p: "rhs = Ptr b off" "b < length (heap s)" "heap s ! b = Live bs" "off \<le> length bs"
       "map Some str @ Some NUL # rest = drop off bs" by blast
  have len: "off + length str < length bs"
    using arg_cong[OF p(5), of length] by simp
  have tk: "take (length str) (drop off bs) = map Some str"
    using p(5)[symmetric] by simp
  have sl: "strlen s (Ptr b off) = Inr (length str)"
    using strlen_terminated[OF assms] p(1) by simp
  show ?thesis
    using p(2-4) len tk unfolding p(1)
    by (simp add: My_string_from_cstr_def sl and_then_def
        set_length_def set_size_def set_init_def new_char_array_def memcpy_def nth_append Let_def)
qed

theorem from_cstr_exact_witness:
  "cells_at (fst (string_literal initial ''abc'')) (Ptr 0 0) = Inr (map Some ''abc'' @ Some NUL # [])
   \<and> NUL \<notin> set ''abc''
   \<and> My_string_from_cstr (fst (string_literal initial ''abc'')) ''x'' (Ptr 0 0) =
       Inr \<lparr>heap = [Live (map Some ''abc'' @ [Some NUL]), Live (map Some ''abc'')],
            objs = (\<lambda>x. \<lparr>m_init = nullptr, m_length = 0, m_size = 0\<rparr>)
                     (''x'' := \<lparr>m_init = Ptr 1 0, m_length = 3, m_size = 3\<rparr>),
            out = []\<rparr>"
  using from_cstr_exact[of "fst (string_literal initial ''abc'')" "Ptr 0 0" "''abc''" "[]" "''x''"]
  by (simp add: string_literal_def initial_def cells_at_def eval_nat_numeral)

section \<open>Transfer\<close>

text \<open>
  Claim C1. Let \<open>S\<close> be any source object and \<open>T\<close> a distinct target.
  After the move constructor, \<open>T\<close> holds exactly the members \<open>S\<close> had (the same buffer
  pointer: the heap is untouched, nothing is copied), so the content of \<open>T\<close> is the content
  \<open>S\<close> had; \<open>S\<close> is in the empty-marker state (pointer \<^verbatim>\<open>nullptr\<close>, length and capacity
  0) and \<^verbatim>\<open>print_str\<close> reports "No data available" for it.
  The same holds after the move assignment, which returns without fault, when \<open>T\<close> is well
  formed (so that its old buffer can be released) and does not share its buffer with \<open>S\<close>.
\<close>

theorem transfer_adopts_buffer:
  assumes "T \<noteq> S"
  shows "objs (My_string_move s T S) T = objs s S \<and>
         heap (My_string_move s T S) = heap s \<and>
         content (My_string_move s T S) T = content s S \<and>
         objs (My_string_move s T S) S = empty_marker \<and>
         print_str (My_string_move s T S) S nm =
           Inr (print (My_string_move s T S) (nm @ '' : No data available'' @ nl)) \<and>
         (owns s T \<and> \<not> same_block (m_init (objs s T)) (m_init (objs s S)) \<longrightarrow>
            (\<exists>s'. move_assign s T S = Inr s' \<and>
                  objs s' T = objs s S \<and>
                  content s' T = content s S \<and>
                  objs s' S = empty_marker \<and>
                  print_str s' S nm = Inr (print s' (nm @ '' : No data available'' @ nl))))"
proof -
  let ?m = "My_string_move s T S"
  have o: "objs ?m = (objs s)(T := objs s S, S := empty_marker)"
    by (rule My_string_move_objs)
  have h: "heap ?m = heap s"
    by (rule My_string_move_heap)
  have c1: "objs ?m T = objs s S" "objs ?m S = empty_marker"
    using assms by (simp_all add: o)
  have c2: "content ?m T = content s S"
    by (rule content_cong) (simp_all add: cells_at_heap_eq[OF h] c1)
  have c3: "print_str ?m S nm = Inr (print ?m (nm @ '' : No data available'' @ nl))"
    by (rule print_str_empty) (simp add: c1 empty_marker_def)
  have c4: "\<exists>s'. move_assign s T S = Inr s' \<and> objs s' T = objs s S \<and>
              content s' T = content s S \<and> objs s' S = empty_marker \<and>
              print_str s' S nm = Inr (print s' (nm @ '' : No data available'' @ nl))"
    if w: "owns s T" and d: "\<not> same_block (m_init (objs s T)) (m_init (objs s S))"
  proof -
    from move_assign_effect[OF assms w d] obtain s' where
      e: "move_assign s T S = Inr s'" "objs s' = (objs s)(T := objs s S, S := empty_marker)"
         "length (heap s') = length (heap s)"
         "\<forall>b. \<not> same_block (Ptr b 0) (m_init (objs s T)) \<longrightarrow> heap s' ! b = heap s ! b"
      by blast
    have t: "objs s' T = objs s S" and e0: "objs s' S = empty_marker"
      using assms by (simp_all add: e(2))
    have "cells_at s' (m_init (objs s S)) = cells_at s (m_init (objs s S))"
      using d by (intro cells_at_frame[OF e(3) e(4)]) (simp add: same_block_sym)
    then have "content s' T = content s S"
      by (rule content_cong) (rule t)
    moreover have "print_str s' S nm = Inr (print s' (nm @ '' : No data available'' @ nl))"
      by (rule print_str_empty) (simp add: e0 empty_marker_def)
    ultimately show ?thesis
      using e(1) t e0 by blast
  qed
  show ?thesis
    using c1 h c2 c3 c4 by blast
qed

theorem transfer_adopts_buffer_witness:
  "''dst'' \<noteq> ''src'' \<and> owns sample ''dst'' \<and>
   \<not> same_block (m_init (objs sample ''dst'')) (m_init (objs sample ''src'')) \<and>
   content sample ''src'' = Inr (map Some ''abc'') \<and>
   content (My_string_move sample ''dst'' ''src'') ''dst'' = Inr (map Some ''abc'') \<and>
   objs (My_string_move sample ''dst'' ''src'') ''src'' = empty_marker \<and>
   (\<exists>s'. move_assign sample ''dst'' ''src'' = Inr s' \<and>
         content s' ''dst'' = Inr (map Some ''abc'') \<and> objs s' ''src'' = empty_marker)"
proof -
  have h1: "''dst'' \<noteq> ''src''"
    by simp
  have h2: "owns sample ''dst''"
    by (simp add: sample_eq owns_def)
  have h3: "\<not> same_block (m_init (objs sample ''dst'')) (m_init (objs sample ''src''))"
    by (simp add: sample_eq same_block_def)
  have c: "content sample ''src'' = Inr (map Some ''abc'')"
    by (simp add: sample_eq content_def slice_def cells_at_def eval_nat_numeral)
  show ?thesis
    using transfer_adopts_buffer[OF h1, of sample "''src''"] h1 h2 h3 c by auto
qed

section \<open>Append\<close>

text \<open>
  Claim C9. For well-formed objects \<open>a\<close> and \<open>b\<close>, whenever \<^verbatim>\<open>a += b\<close> returns
  without fault, the members \<^verbatim>\<open>_length\<close> and \<^verbatim>\<open>_size\<close> of \<open>a\<close> are what they were
  before, although the content of \<open>b\<close> now stands in the buffer of \<open>a\<close> at the cells from
  the old \<^verbatim>\<open>_length\<close> on. The members therefore do not cover the appended bytes: a second
  append \<^verbatim>\<open>a += c\<close> writes the content of \<open>c\<close> at the same position, over the bytes of
  the first.
\<close>

theorem append_keeps_length_and_size:
  assumes "plus_assign s a b = Inr s1" and "owns s a" and "owns s b"
  shows "m_length (objs s1 a) = m_length (objs s a) \<and>
         m_size (objs s1 a) = m_size (objs s a) \<and>
         slice s1 (m_init (objs s1 a)) (m_length (objs s a)) (m_length (objs s b)) = content s b \<and>
         (\<forall>c s2. owns s1 c \<and> plus_assign s1 a c = Inr s2 \<longrightarrow>
            m_length (objs s2 a) = m_length (objs s a) \<and>
            m_size (objs s2 a) = m_size (objs s a) \<and>
            slice s2 (m_init (objs s2 a)) (m_length (objs s a)) (m_length (objs s1 c)) = content s1 c)"
proof -
  have al: "allocated s (m_init (objs s a))"
    using assms(2) by (rule owns_allocated)
  have f1: "m_length (objs s1 a) = m_length (objs s a)" "m_size (objs s1 a) = m_size (objs s a)"
    using plus_assign_fields[OF assms(1), of a] by simp_all
  have w1: "slice s1 (m_init (objs s1 a)) (m_length (objs s a)) (m_length (objs s b)) = content s b"
    using assms(1) al assms(3) by (rule plus_assign_written)
  have al1: "allocated s1 (m_init (objs s1 a))"
    using assms(1) al by (rule plus_assign_allocated)
  have second: "m_length (objs s2 a) = m_length (objs s a) \<and>
            m_size (objs s2 a) = m_size (objs s a) \<and>
            slice s2 (m_init (objs s2 a)) (m_length (objs s a)) (m_length (objs s1 c)) = content s1 c"
    if "owns s1 c" and "plus_assign s1 a c = Inr s2" for c s2
    using plus_assign_fields[OF that(2), of a] plus_assign_written[OF that(2) al1 that(1)] f1
    by simp
  show ?thesis
    using f1 w1 second by blast
qed

theorem append_keeps_length_and_size_witness:
  "\<exists>s1 s2. plus_assign sample ''dst'' ''src'' = Inr s1 \<and> owns sample ''dst'' \<and> owns sample ''src'' \<and>
     m_length (objs s1 ''dst'') = 2 \<and> m_size (objs s1 ''dst'') = 2 \<and>
     slice s1 (m_init (objs s1 ''dst'')) 2 3 = Inr (map Some ''abc'') \<and>
     owns s1 ''dst'' \<and> plus_assign s1 ''dst'' ''dst'' = Inr s2 \<and>
     m_length (objs s2 ''dst'') = 2 \<and> m_size (objs s2 ''dst'') = 2 \<and>
     slice s2 (m_init (objs s2 ''dst'')) 2 2 = Inr (map Some ''de'')"
proof -
  define s1 where "s1 =
     \<lparr>heap = [Live (map Some ''abc'' @ [Some NUL]), Live (map Some ''abc''),
              Live (map Some ''de'' @ [Some NUL]), Freed, Live (map Some ''deabc'')],
      objs = (\<lambda>x. \<lparr>m_init = nullptr, m_length = 0, m_size = 0\<rparr>)
               (''src'' := \<lparr>m_init = Ptr 1 0, m_length = 3, m_size = 3\<rparr>,
                ''dst'' := \<lparr>m_init = Ptr 4 0, m_length = 2, m_size = 2\<rparr>),
      out = []\<rparr>"
  define s2 where "s2 =
     \<lparr>heap = [Live (map Some ''abc'' @ [Some NUL]), Live (map Some ''abc''),
              Live (map Some ''de'' @ [Some NUL]), Freed, Freed, Live (map Some ''dede'')],
      objs = (\<lambda>x. \<lparr>m_init = nullptr, m_length = 0, m_size = 0\<rparr>)
               (''src'' := \<lparr>m_init = Ptr 1 0, m_length = 3, m_size = 3\<rparr>,
                ''dst'' := \<lparr>m_init = Ptr 5 0, m_length = 2, m_size = 2\<rparr>),
      out = []\<rparr>"
  have p1: "plus_assign sample ''dst'' ''src'' = Inr s1"
    unfolding s1_def by (rule plus_assign_sample)
  have o1: "owns sample ''dst''" and o2: "owns sample ''src''"
    by (simp_all add: sample_eq owns_def)
  have o3: "owns s1 ''dst''"
    by (simp add: s1_def owns_def)
  have p2: "plus_assign s1 ''dst'' ''dst'' = Inr s2"
    by (simp add: s1_def s2_def plus_assign_def resize_def and_then_def new_char_array_def
        set_init_def memcpy_def delete_array_def ptr_add_def Let_def eval_nat_numeral)
  have c1: "content sample ''src'' = Inr (map Some ''abc'')"
    by (simp add: sample_eq content_def slice_def cells_at_def eval_nat_numeral)
  have c2: "content s1 ''dst'' = Inr (map Some ''de'')"
    by (simp add: s1_def content_def slice_def cells_at_def eval_nat_numeral)
  have l: "m_length (objs sample ''dst'') = 2" "m_size (objs sample ''dst'') = 2"
    "m_length (objs sample ''src'') = 3" "m_length (objs s1 ''dst'') = 2"
    by (simp_all add: sample_eq s1_def)
  note t = append_keeps_length_and_size[OF p1 o1 o2]
  from t have a: "m_length (objs s1 ''dst'') = m_length (objs sample ''dst'') \<and>
        m_size (objs s1 ''dst'') = m_size (objs sample ''dst'') \<and>
        slice s1 (m_init (objs s1 ''dst'')) (m_length (objs sample ''dst''))
          (m_length (objs sample ''src'')) = content sample ''src''"
    by blast
  from t o3 p2 have b: "m_length (objs s2 ''dst'') = m_length (objs sample ''dst'') \<and>
        m_size (objs s2 ''dst'') = m_size (objs sample ''dst'') \<and>
        slice s2 (m_init (objs s2 ''dst'')) (m_length (objs sample ''dst''))
          (m_length (objs s1 ''dst'')) = content s1 ''dst''"
    by blast
  from a b have "m_length (objs s1 ''dst'') = 2 \<and> m_size (objs s1 ''dst'') = 2 \<and>
        slice s1 (m_init (objs s1 ''dst'')) 2 3 = Inr (map Some ''abc'') \<and>
        m_length (objs s2 ''dst'') = 2 \<and> m_size (objs s2 ''dst'') = 2 \<and>
        slice s2 (m_init (objs s2 ''dst'')) 2 2 = Inr (map Some ''de'')"
    by (simp add: l c1 c2)
  with p1 o1 o2 o3 p2 show ?thesis
    by blast
qed

section \<open>Duplication\<close>

text \<open>
  The duplication itself. Let \<open>S\<close> be a well-formed source and \<open>T\<close> a distinct target.
  The copy constructor returns without fault; afterwards the members of \<open>S\<close> (pointer,
  length, capacity) and the cells of its buffer are what they were, the content of \<open>T\<close> is
  the content of \<open>S\<close>, and \<open>T\<close> points into a block other than the one of \<open>S\<close>; an
  append to \<open>T\<close> that stays inside the buffer of \<open>T\<close> (one that returns) leaves \<open>S\<close>
  and its buffer as they were. The same holds for the copy assignment when \<open>T\<close> is well
  formed and does not share its buffer with \<open>S\<close>.
\<close>

lemma duplicate_is_independent:
  assumes "T \<noteq> S" and "owns s S"
  shows "(\<exists>s'. My_string_copy s T S = Inr s' \<and>
            objs s' S = objs s S \<and>
            cells_at s' (m_init (objs s' S)) = cells_at s (m_init (objs s S)) \<and>
            content s' S = content s S \<and>
            content s' T = content s S \<and>
            \<not> same_block (m_init (objs s' T)) (m_init (objs s' S)) \<and>
            (\<forall>B s''. plus_assign s' T B = Inr s'' \<longrightarrow>
               objs s'' S = objs s S \<and>
               cells_at s'' (m_init (objs s'' S)) = cells_at s (m_init (objs s S)) \<and>
               content s'' S = content s S)) \<and>
         (owns s T \<and> \<not> same_block (m_init (objs s T)) (m_init (objs s S)) \<longrightarrow>
           (\<exists>s'. copy_assign s T S = Inr s' \<and>
              objs s' S = objs s S \<and>
              cells_at s' (m_init (objs s' S)) = cells_at s (m_init (objs s S)) \<and>
              content s' S = content s S \<and>
              content s' T = content s S \<and>
              \<not> same_block (m_init (objs s' T)) (m_init (objs s' S)) \<and>
              (\<forall>B s''. plus_assign s' T B = Inr s'' \<longrightarrow>
                 objs s'' S = objs s S \<and>
                 cells_at s'' (m_init (objs s'' S)) = cells_at s (m_init (objs s S)) \<and>
                 content s'' S = content s S)))"
proof -
  from owns_content[OF assms(2)] obtain cs where cs: "content s S = Inr cs"
    by blast
  let ?o = "(objs s)(T := \<lparr>m_init = Ptr (length (heap s)) 0,
                            m_length = m_length (objs s S), m_size = m_size (objs s S)\<rparr>)"
  let ?s1 = "s\<lparr>heap := heap s @ [Live cs], objs := ?o,
                out := out s @ ''COPY constructor has been called'' @ nl\<rparr>"
  have e1: "My_string_copy s T S = Inr ?s1"
    using assms cs by (rule My_string_copy_effect)
  have ctor: "objs ?s1 S = objs s S \<and>
            cells_at ?s1 (m_init (objs ?s1 S)) = cells_at s (m_init (objs s S)) \<and>
            content ?s1 S = content s S \<and>
            content ?s1 T = content s S \<and>
            \<not> same_block (m_init (objs ?s1 T)) (m_init (objs ?s1 S)) \<and>
            (\<forall>B s''. plus_assign ?s1 T B = Inr s'' \<longrightarrow>
               objs s'' S = objs s S \<and>
               cells_at s'' (m_init (objs s'' S)) = cells_at s (m_init (objs s S)) \<and>
               content s'' S = content s S)"
    by (rule duplicate_post[OF assms cs, where h = "heap s" and q = nullptr])
       (simp_all add: same_block_def)
  have asg: "\<exists>s'. copy_assign s T S = Inr s' \<and>
              objs s' S = objs s S \<and>
              cells_at s' (m_init (objs s' S)) = cells_at s (m_init (objs s S)) \<and>
              content s' S = content s S \<and>
              content s' T = content s S \<and>
              \<not> same_block (m_init (objs s' T)) (m_init (objs s' S)) \<and>
              (\<forall>B s''. plus_assign s' T B = Inr s'' \<longrightarrow>
                 objs s'' S = objs s S \<and>
                 cells_at s'' (m_init (objs s'' S)) = cells_at s (m_init (objs s S)) \<and>
                 content s'' S = content s S)"
    if w: "owns s T" and d: "\<not> same_block (m_init (objs s T)) (m_init (objs s S))"
  proof -
    from copy_assign_effect[OF assms(1) w assms(2) d cs] obtain h where
      h: "copy_assign s T S =
           Inr (s\<lparr>heap := h @ [Live cs], objs := ?o,
                  out := out s @ ''COPY assignment has been called'' @ nl\<rparr>)"
         "length h = length (heap s)"
         "\<forall>b. \<not> same_block (Ptr b 0) (m_init (objs s T)) \<longrightarrow> h ! b = heap s ! b"
      by (elim exE conjE)
    let ?s2 = "s\<lparr>heap := h @ [Live cs], objs := ?o,
                  out := out s @ ''COPY assignment has been called'' @ nl\<rparr>"
    have "objs ?s2 S = objs s S \<and>
            cells_at ?s2 (m_init (objs ?s2 S)) = cells_at s (m_init (objs s S)) \<and>
            content ?s2 S = content s S \<and>
            content ?s2 T = content s S \<and>
            \<not> same_block (m_init (objs ?s2 T)) (m_init (objs ?s2 S)) \<and>
            (\<forall>B s''. plus_assign ?s2 T B = Inr s'' \<longrightarrow>
               objs s'' S = objs s S \<and>
               cells_at s'' (m_init (objs s'' S)) = cells_at s (m_init (objs s S)) \<and>
               content s'' S = content s S)"
      by (rule duplicate_post[OF assms cs, where h = h and q = "m_init (objs s T)"])
         (simp_all add: h(2) h(3) d)
    with h(1) show ?thesis
      by blast
  qed
  from e1 ctor have "\<exists>s'. My_string_copy s T S = Inr s' \<and>
            objs s' S = objs s S \<and>
            cells_at s' (m_init (objs s' S)) = cells_at s (m_init (objs s S)) \<and>
            content s' S = content s S \<and>
            content s' T = content s S \<and>
            \<not> same_block (m_init (objs s' T)) (m_init (objs s' S)) \<and>
            (\<forall>B s''. plus_assign s' T B = Inr s'' \<longrightarrow>
               objs s'' S = objs s S \<and>
               cells_at s'' (m_init (objs s'' S)) = cells_at s (m_init (objs s S)) \<and>
               content s'' S = content s S)"
    by blast
  with asg show ?thesis
    by blast
qed

lemma duplicate_is_independent_example:
  "''dst'' \<noteq> ''src'' \<and> owns sample ''src'' \<and> owns sample ''dst'' \<and>
   \<not> same_block (m_init (objs sample ''dst'')) (m_init (objs sample ''src'')) \<and>
   (\<exists>s'. My_string_copy sample ''cpy'' ''src'' = Inr s' \<and>
      content s' ''cpy'' = Inr (map Some ''abc'') \<and> content s' ''src'' = Inr (map Some ''abc'')) \<and>
   (\<exists>s' s''. copy_assign sample ''dst'' ''src'' = Inr s' \<and>
      content s' ''dst'' = Inr (map Some ''abc'') \<and> content s' ''src'' = Inr (map Some ''abc'') \<and>
      plus_assign s' ''dst'' ''src'' = Inr s'' \<and>
      slice s'' (m_init (objs s'' ''dst'')) 0 6 = Inr (map Some ''abcabc'') \<and>
      content s'' ''src'' = Inr (map Some ''abc''))"
proof -
  define s1 where "s1 =
     \<lparr>heap = [Live (map Some ''abc'' @ [Some NUL]), Live (map Some ''abc''),
              Live (map Some ''de'' @ [Some NUL]), Freed, Live (map Some ''abc'')],
      objs = (\<lambda>x. \<lparr>m_init = nullptr, m_length = 0, m_size = 0\<rparr>)
               (''src'' := \<lparr>m_init = Ptr 1 0, m_length = 3, m_size = 3\<rparr>,
                ''dst'' := \<lparr>m_init = Ptr 4 0, m_length = 3, m_size = 3\<rparr>),
      out = ''COPY assignment has been called'' @ nl\<rparr>"
  define s2 where "s2 =
     \<lparr>heap = [Live (map Some ''abc'' @ [Some NUL]), Live (map Some ''abc''),
              Live (map Some ''de'' @ [Some NUL]), Freed, Freed, Live (map Some ''abcabc'')],
      objs = (\<lambda>x. \<lparr>m_init = nullptr, m_length = 0, m_size = 0\<rparr>)
               (''src'' := \<lparr>m_init = Ptr 1 0, m_length = 3, m_size = 3\<rparr>,
                ''dst'' := \<lparr>m_init = Ptr 5 0, m_length = 3, m_size = 3\<rparr>),
      out = ''COPY assignment has been called'' @ nl\<rparr>"
  have h1: "''dst'' \<noteq> ''src''" and h1': "''cpy'' \<noteq> ''src''"
    by simp_all
  have h2: "owns sample ''src''" and h3: "owns sample ''dst''"
    by (simp_all add: sample_eq owns_def)
  have h4: "\<not> same_block (m_init (objs sample ''dst'')) (m_init (objs sample ''src''))"
    by (simp add: sample_eq same_block_def)
  have c: "content sample ''src'' = Inr (map Some ''abc'')"
    by (simp add: sample_eq content_def slice_def cells_at_def eval_nat_numeral)
  have a1: "copy_assign sample ''dst'' ''src'' = Inr s1"
    by (simp add: sample_eq s1_def copy_assign_def and_then_def new_char_array_def set_init_def
        set_length_def set_size_def print_def memcpy_def delete_array_def Let_def eval_nat_numeral)
  have a2: "plus_assign s1 ''dst'' ''src'' = Inr s2"
    by (simp add: s1_def s2_def plus_assign_def resize_def and_then_def new_char_array_def
        set_init_def memcpy_def delete_array_def ptr_add_def Let_def eval_nat_numeral)
  have a3: "slice s2 (m_init (objs s2 ''dst'')) 0 6 = Inr (map Some ''abcabc'')"
    by (simp add: s2_def slice_def cells_at_def eval_nat_numeral)
  from duplicate_is_independent[OF h1' h2] c
  have ctor: "\<exists>s'. My_string_copy sample ''cpy'' ''src'' = Inr s' \<and>
      content s' ''cpy'' = Inr (map Some ''abc'') \<and> content s' ''src'' = Inr (map Some ''abc'')"
    by auto
  from duplicate_is_independent[OF h1 h2] h3 h4 a1 a2 c
  have "content s1 ''dst'' = Inr (map Some ''abc'') \<and> content s1 ''src'' = Inr (map Some ''abc'') \<and>
        content s2 ''src'' = Inr (map Some ''abc'')"
    by auto
  with h1 h2 h3 h4 ctor a1 a2 a3 show ?thesis
    by blast
qed

text \<open>
  Claim C2. The duplication leaves the source as it was and gives the target a block of its
  own (\<open>duplicate_is_independent\<close>), but a later append to the target is not confined to
  that block. In \<open>duplicated\<close>, \<^verbatim>\<open>T\<close> is a duplicate of \<^verbatim>\<open>S\<close> with the same content
  in a block of exactly 24 cells, and \<^verbatim>\<open>B\<close> has length 16. \<^verbatim>\<open>T += B\<close> does not grow the
  buffer, since \<open>24 \<le> 16\<close> is false, and copies 16 bytes to the cells 24 to 39 of the block
  of 24 cells: the write leaves the buffer of \<^verbatim>\<open>T\<close>, and nothing keeps it off the buffer
  of \<^verbatim>\<open>S\<close>.
\<close>

theorem append_to_duplicate_writes_past_buffer:
  "objs duplicated ''S'' = \<lparr>m_init = Ptr 3 0, m_length = 24, m_size = 24\<rparr> \<and>
   objs duplicated ''T'' = \<lparr>m_init = Ptr 4 0, m_length = 24, m_size = 24\<rparr> \<and>
   heap duplicated ! 4 = Live (map Some ''bbbbbbbbbbbbbbbbbbbbbbbb'') \<and>
   length ''bbbbbbbbbbbbbbbbbbbbbbbb'' = 24 \<and>
   content duplicated ''T'' = content duplicated ''S'' \<and>
   m_length (objs duplicated ''B'') = 16 \<and>
   \<not> m_size (objs duplicated ''T'') \<le> m_length (objs duplicated ''B'') \<and>
   plus_assign duplicated ''T'' ''B'' = Inl OutOfBoundsWrite"
  by (simp add: duplicated_eq content_def slice_def cells_at_def plus_assign_def and_then_def
      memcpy_def ptr_add_def eval_nat_numeral)

text \<open>
  Claim C10. Let the source \<open>S\<close> be in the empty-marker state (pointer \<^verbatim>\<open>nullptr\<close>,
  length 0) and \<open>T\<close> a distinct target. The copy constructor returns without fault and
  leaves \<open>T\<close> with a pointer that is not \<^verbatim>\<open>nullptr\<close>: the start of a new block of no
  cells, with length 0. So \<^verbatim>\<open>print_str\<close> does not report "No data available" for
  \<open>T\<close>: it takes the branch for a buffer, where \<^verbatim>\<open>strlen\<close> reads past the empty block.
  The same holds for the copy assignment to a well-formed \<open>T\<close>. The \<^verbatim>\<open>memcpy\<close> of both
  is called with the \<^verbatim>\<open>nullptr\<close> of \<open>S\<close> as source and 0 bytes, and does nothing.
\<close>

theorem duplicate_of_empty_allocates:
  assumes "T \<noteq> S" and "m_init (objs s S) = nullptr" and "m_length (objs s S) = 0"
  shows "(\<exists>s'. My_string_copy s T S = Inr s' \<and>
            m_init (objs s' T) = Ptr (length (heap s)) 0 \<and>
            m_init (objs s' T) \<noteq> nullptr \<and>
            m_length (objs s' T) = 0 \<and>
            heap s' = heap s @ [Live []] \<and>
            print_str s' T nm \<noteq> Inr (print s' (nm @ '' : No data available'' @ nl)) \<and>
            print_str s' T nm = Inl OutOfBoundsRead) \<and>
         (owns s T \<longrightarrow>
           (\<exists>s'. copy_assign s T S = Inr s' \<and>
              m_init (objs s' T) = Ptr (length (heap s)) 0 \<and>
              m_init (objs s' T) \<noteq> nullptr \<and>
              m_length (objs s' T) = 0 \<and>
              length (heap s') = Suc (length (heap s)) \<and>
              heap s' ! length (heap s) = Live [] \<and>
              print_str s' T nm \<noteq> Inr (print s' (nm @ '' : No data available'' @ nl)) \<and>
              print_str s' T nm = Inl OutOfBoundsRead)) \<and>
         (\<forall>st dst. memcpy st dst (m_init (objs s S)) (m_length (objs s S)) = Inr st)"
proof -
  have ow: "owns s S"
    using assms(2,3) by (simp add: owns_def)
  have cs: "content s S = Inr []"
    using assms(3) by (simp add: content_def slice_def)
  let ?o = "(objs s)(T := \<lparr>m_init = Ptr (length (heap s)) 0,
                            m_length = m_length (objs s S), m_size = m_size (objs s S)\<rparr>)"
  let ?s1 = "s\<lparr>heap := heap s @ [Live []], objs := ?o,
                out := out s @ ''COPY constructor has been called'' @ nl\<rparr>"
  have e1: "My_string_copy s T S = Inr ?s1"
    using assms(1) ow cs by (rule My_string_copy_effect)
  have p1: "print_str ?s1 T nm = Inl OutOfBoundsRead"
    by (rule print_str_unterminated[where b = "length (heap s)" and str = "[]"]) simp_all
  have ctor: "\<exists>s'. My_string_copy s T S = Inr s' \<and>
            m_init (objs s' T) = Ptr (length (heap s)) 0 \<and>
            m_init (objs s' T) \<noteq> nullptr \<and>
            m_length (objs s' T) = 0 \<and>
            heap s' = heap s @ [Live []] \<and>
            print_str s' T nm \<noteq> Inr (print s' (nm @ '' : No data available'' @ nl)) \<and>
            print_str s' T nm = Inl OutOfBoundsRead"
    using e1 p1 assms(3) by (intro exI[of _ ?s1]) simp
  have asg: "\<exists>s'. copy_assign s T S = Inr s' \<and>
              m_init (objs s' T) = Ptr (length (heap s)) 0 \<and>
              m_init (objs s' T) \<noteq> nullptr \<and>
              m_length (objs s' T) = 0 \<and>
              length (heap s') = Suc (length (heap s)) \<and>
              heap s' ! length (heap s) = Live [] \<and>
              print_str s' T nm \<noteq> Inr (print s' (nm @ '' : No data available'' @ nl)) \<and>
              print_str s' T nm = Inl OutOfBoundsRead"
    if w: "owns s T"
  proof -
    have d: "\<not> same_block (m_init (objs s T)) (m_init (objs s S))"
      using assms(2) by (simp add: same_block_def split: ptr.splits)
    from copy_assign_effect[OF assms(1) w ow d cs] obtain h where
      h: "copy_assign s T S =
           Inr (s\<lparr>heap := h @ [Live []], objs := ?o,
                  out := out s @ ''COPY assignment has been called'' @ nl\<rparr>)"
         "length h = length (heap s)"
      by (elim exE conjE)
    let ?s2 = "s\<lparr>heap := h @ [Live []], objs := ?o,
                  out := out s @ ''COPY assignment has been called'' @ nl\<rparr>"
    have p2: "print_str ?s2 T nm = Inl OutOfBoundsRead"
      by (rule print_str_unterminated[where b = "length (heap s)" and str = "[]"])
         (simp_all add: h(2)[symmetric])
    show ?thesis
      using h(1) p2 assms(3) by (intro exI[of _ ?s2]) (simp add: h(2)[symmetric])
  qed
  have m: "\<forall>st dst. memcpy st dst (m_init (objs s S)) (m_length (objs s S)) = Inr st"
    using assms(3) by (simp add: memcpy_def)
  from ctor asg m show ?thesis
    by blast
qed

theorem duplicate_of_empty_allocates_witness:
  "''dst'' \<noteq> ''emp'' \<and>
   m_init (objs (My_string_default sample ''emp'') ''emp'') = nullptr \<and>
   m_length (objs (My_string_default sample ''emp'') ''emp'') = 0 \<and>
   owns (My_string_default sample ''emp'') ''dst'' \<and>
   (\<exists>s'. My_string_copy (My_string_default sample ''emp'') ''cpy'' ''emp'' = Inr s' \<and>
      m_init (objs s' ''cpy'') = Ptr 4 0 \<and> heap s' ! 4 = Live [] \<and>
      print_str s' ''cpy'' ''cpy'' = Inl OutOfBoundsRead) \<and>
   (\<exists>s'. copy_assign (My_string_default sample ''emp'') ''dst'' ''emp'' = Inr s' \<and>
      m_init (objs s' ''dst'') = Ptr 4 0 \<and> heap s' ! 4 = Live [] \<and>
      print_str s' ''dst'' ''dst'' = Inl OutOfBoundsRead)"
proof -
  let ?w = "My_string_default sample ''emp''"
  have h1: "''dst'' \<noteq> ''emp''" and h1': "''cpy'' \<noteq> ''emp''"
    by simp_all
  have h2: "m_init (objs ?w ''emp'') = nullptr" and h3: "m_length (objs ?w ''emp'') = 0"
    by (simp_all add: My_string_default_def print_def)
  have h4: "owns ?w ''dst''"
    by (simp add: My_string_default_def print_def sample_eq owns_def)
  have l: "length (heap ?w) = 4"
    by (simp add: My_string_default_def print_def sample_eq)
  from duplicate_of_empty_allocates[OF h1' h2 h3, of "''cpy''"]
  have c: "\<exists>s'. My_string_copy ?w ''cpy'' ''emp'' = Inr s' \<and>
      m_init (objs s' ''cpy'') = Ptr 4 0 \<and> heap s' ! 4 = Live [] \<and>
      print_str s' ''cpy'' ''cpy'' = Inl OutOfBoundsRead"
    unfolding l by (auto simp: nth_append l)
  from duplicate_of_empty_allocates[OF h1 h2 h3, of "''dst''"] h4
  have a: "\<exists>s'. copy_assign ?w ''dst'' ''emp'' = Inr s' \<and>
      m_init (objs s' ''dst'') = Ptr 4 0 \<and> heap s' ! 4 = Live [] \<and>
      print_str s' ''dst'' ''dst'' = Inl OutOfBoundsRead"
    unfolding l by auto
  from h1 h2 h3 h4 c a show ?thesis
    by blast
qed

section \<open>The invariant on length and capacity\<close>

text \<open>
  Claim C8. Let the objects of the variables in \<open>X\<close> satisfy \<^verbatim>\<open>_length <= _size\<close>, and
  let \<open>r\<close> be one of them. Then the invariant holds for \<open>X\<close> and the target \<open>t\<close> after
  the default constructor, after the constructor from a byte sequence, and after the copy
  constructor, copy assignment, move constructor and move assignment from \<open>r\<close>, whenever
  they return; it holds for \<open>X\<close> after an append to \<open>r\<close> that returns. After the move
  constructor or the move assignment to a distinct target, the source \<open>r\<close> is in the
  empty-marker state and its destructor returns without fault, releasing nothing.
\<close>

theorem capacity_ge_length_invariant:
  assumes "cap_ge_len X s" and "r \<in> X"
  shows "cap_ge_len (insert t X) (My_string_default s t) \<and>
         (\<forall>s'. My_string_from_cstr s t p = Inr s' \<longrightarrow> cap_ge_len (insert t X) s') \<and>
         (\<forall>s'. My_string_copy s t r = Inr s' \<longrightarrow> cap_ge_len (insert t X) s') \<and>
         (\<forall>s'. copy_assign s t r = Inr s' \<longrightarrow> cap_ge_len (insert t X) s') \<and>
         cap_ge_len (insert t X) (My_string_move s t r) \<and>
         (\<forall>s'. move_assign s t r = Inr s' \<longrightarrow> cap_ge_len (insert t X) s') \<and>
         (\<forall>s'. plus_assign s r b = Inr s' \<longrightarrow> cap_ge_len X s') \<and>
         (t \<noteq> r \<longrightarrow>
            objs (My_string_move s t r) r = empty_marker \<and>
            My_string_destroy (My_string_move s t r) r =
              Inr (print (My_string_move s t r) (''DESTRUCTOR has been called'' @ nl))) \<and>
         (t \<noteq> r \<longrightarrow>
            (\<forall>s'. move_assign s t r = Inr s' \<longrightarrow>
               objs s' r = empty_marker \<and>
               My_string_destroy s' r = Inr (print s' (''DESTRUCTOR has been called'' @ nl))))"
proof -
  have inv: "m_length (objs s x) \<le> m_size (objs s x)" if "x \<in> X" for x
    using assms(1) that by (simp add: cap_ge_len_def)
  have c1: "cap_ge_len (insert t X) (My_string_default s t)"
    using inv by (simp add: cap_ge_len_def My_string_default_objs empty_marker_def)
  have c2: "cap_ge_len (insert t X) s'" if "My_string_from_cstr s t p = Inr s'" for s'
    using My_string_from_cstr_fields[OF that] by (intro cap_ge_len_insertI[OF assms(1)]) simp_all
  have c3: "cap_ge_len (insert t X) s'" if "My_string_copy s t r = Inr s'" for s'
    using My_string_copy_fields[OF that] inv[OF assms(2)]
    by (intro cap_ge_len_insertI[OF assms(1)]) simp_all
  have c4: "cap_ge_len (insert t X) s'" if "copy_assign s t r = Inr s'" for s'
    using copy_assign_fields[OF that] inv[OF assms(2)]
    by (intro cap_ge_len_insertI[OF assms(1)]) simp_all
  have c5: "cap_ge_len (insert t X) (My_string_move s t r)"
    using inv assms(2) by (auto simp: cap_ge_len_def My_string_move_objs empty_marker_def)
  have c6: "cap_ge_len (insert t X) s'" if "move_assign s t r = Inr s'" for s'
  proof (cases "t = r")
    case True
    with that assms show ?thesis
      by (simp add: move_assign_def insert_absorb)
  next
    case False
    from move_assign_fields[OF that False] inv assms(2) show ?thesis
      by (auto simp: cap_ge_len_def empty_marker_def)
  qed
  have c7: "cap_ge_len X s'" if "plus_assign s r b = Inr s'" for s'
    using plus_assign_fields[OF that] inv by (simp add: cap_ge_len_def)
  have c8: "objs (My_string_move s t r) r = empty_marker \<and>
            My_string_destroy (My_string_move s t r) r =
              Inr (print (My_string_move s t r) (''DESTRUCTOR has been called'' @ nl))"
    by (simp add: destroy_empty My_string_move_objs)
  have c9: "objs s' r = empty_marker \<and>
            My_string_destroy s' r = Inr (print s' (''DESTRUCTOR has been called'' @ nl))"
    if "t \<noteq> r" and "move_assign s t r = Inr s'" for s'
    using move_assign_fields[OF that(2,1)] by (simp add: destroy_empty)
  show ?thesis
    using c1 c2 c3 c4 c5 c6 c7 c8 c9 by blast
qed

theorem capacity_ge_length_invariant_witness:
  "cap_ge_len {''dst'', ''src''} sample \<and> ''src'' \<in> {''dst'', ''src''} \<and> ''dst'' \<noteq> ''src'' \<and>
   cap_ge_len {''dst'', ''src''} (My_string_default sample ''dst'') \<and>
   (\<exists>s'. My_string_from_cstr sample ''dst'' (Ptr 0 0) = Inr s' \<and> cap_ge_len {''dst'', ''src''} s') \<and>
   (\<exists>s'. My_string_copy sample ''dst'' ''src'' = Inr s' \<and> cap_ge_len {''dst'', ''src''} s') \<and>
   (\<exists>s'. copy_assign sample ''dst'' ''src'' = Inr s' \<and> cap_ge_len {''dst'', ''src''} s') \<and>
   cap_ge_len {''dst'', ''src''} (My_string_move sample ''dst'' ''src'') \<and>
   (\<exists>s'. move_assign sample ''dst'' ''src'' = Inr s' \<and> cap_ge_len {''dst'', ''src''} s' \<and>
      objs s' ''src'' = empty_marker \<and>
      My_string_destroy s' ''src'' = Inr (print s' (''DESTRUCTOR has been called'' @ nl))) \<and>
   (\<exists>s'. plus_assign sample ''src'' ''src'' = Inr s' \<and> cap_ge_len {''dst'', ''src''} s')"
proof -
  let ?X = "{''dst'', ''src''}"
  have h1: "cap_ge_len ?X sample"
    by (simp add: cap_ge_len_def sample_eq)
  have h2: "''src'' \<in> ?X" and h3: "''dst'' \<noteq> ''src''"
    by simp_all
  have i: "insert ''dst'' ?X = ?X"
    by simp
  have o1: "owns sample ''dst''" and o2: "owns sample ''src''"
    by (simp_all add: sample_eq owns_def)
  have d: "\<not> same_block (m_init (objs sample ''dst'')) (m_init (objs sample ''src''))"
    by (simp add: sample_eq same_block_def)
  from owns_content[OF o2] obtain cs where cs: "content sample ''src'' = Inr cs"
    by blast
  have e1: "\<exists>s'. My_string_from_cstr sample ''dst'' (Ptr 0 0) = Inr s'"
    by (simp add: sample_eq My_string_from_cstr_def and_then_def strlen_def cells_at_def
        set_length_def set_size_def set_init_def new_char_array_def memcpy_def Let_def
        eval_nat_numeral)
  have e2: "\<exists>s'. My_string_copy sample ''dst'' ''src'' = Inr s'"
    using My_string_copy_effect[OF h3 o2 cs] by simp
  have e3: "\<exists>s'. copy_assign sample ''dst'' ''src'' = Inr s'"
    using copy_assign_effect[OF h3 o1 o2 d cs] by blast
  have e4: "\<exists>s'. move_assign sample ''dst'' ''src'' = Inr s'"
    using move_assign_effect[OF h3 o1 d] by blast
  have e5: "\<exists>s'. plus_assign sample ''src'' ''src'' = Inr s'"
    by (simp add: sample_eq plus_assign_def resize_def and_then_def new_char_array_def
        set_init_def memcpy_def delete_array_def ptr_add_def Let_def eval_nat_numeral)
  note t = capacity_ge_length_invariant[OF h1 h2, of "''dst''" "Ptr 0 0" "''src''", unfolded i]
  from t e1 have w1: "\<exists>s'. My_string_from_cstr sample ''dst'' (Ptr 0 0) = Inr s' \<and> cap_ge_len ?X s'"
    by blast
  from t e2 have w2: "\<exists>s'. My_string_copy sample ''dst'' ''src'' = Inr s' \<and> cap_ge_len ?X s'"
    by blast
  from t e3 have w3: "\<exists>s'. copy_assign sample ''dst'' ''src'' = Inr s' \<and> cap_ge_len ?X s'"
    by blast
  from t e4 h3 have w4: "\<exists>s'. move_assign sample ''dst'' ''src'' = Inr s' \<and> cap_ge_len ?X s' \<and>
      objs s' ''src'' = empty_marker \<and>
      My_string_destroy s' ''src'' = Inr (print s' (''DESTRUCTOR has been called'' @ nl))"
    by blast
  from t e5 have w5: "\<exists>s'. plus_assign sample ''src'' ''src'' = Inr s' \<and> cap_ge_len ?X s'"
    by blast
  from t have w6: "cap_ge_len ?X (My_string_default sample ''dst'')"
    and w7: "cap_ge_len ?X (My_string_move sample ''dst'' ''src'')"
    by blast+
  from h1 h2 h3 w1 w2 w3 w4 w5 w6 w7 show ?thesis
    by blast
qed

section \<open>Self-assignment\<close>

text \<open>
  Claim C3. The move assignment compares \<^verbatim>\<open>this\<close> with \<^verbatim>\<open>&rhs\<close> and leaves the state
  as it is when they are equal. The copy assignment has no such guard. For the object
  \<^verbatim>\<open>src\<close> of \<open>sample\<close>, with content "abc" in block 1: the first statement of
  \<^verbatim>\<open>src = src\<close> releases block 1, the buffer \<^verbatim>\<open>src\<close> still points to; the new buffer is
  then assigned to \<^verbatim>\<open>_init\<close>, which is \<^verbatim>\<open>rhs._init\<close> too, and \<^verbatim>\<open>memcpy\<close> is called
  with this one indeterminate buffer as source and destination, a fault.
\<close>

theorem copy_self_assign_loses_content:
  "content sample ''src'' = Inr (map Some ''abc'') \<and>
   m_init (objs sample ''src'') = Ptr 1 0 \<and>
   (\<exists>s1. delete_array sample (m_init (objs sample ''src'')) = Inr s1 \<and>
      heap s1 ! 1 = Freed \<and> m_init (objs s1 ''src'') = Ptr 1 0) \<and>
   copy_assign sample ''src'' ''src'' = Inl OverlappingCopy \<and>
   move_assign sample ''src'' ''src'' = Inr sample"
  by (simp add: sample_eq content_def slice_def cells_at_def delete_array_def
      copy_assign_def move_assign_def and_then_def new_char_array_def set_init_def memcpy_def
      Let_def eval_nat_numeral)

section \<open>Append beyond the capacity\<close>

text \<open>
  Claim C5. The append grows the buffer when \<^verbatim>\<open>_size <= rhs._length\<close>, not when the
  capacity is too small for the old content and the added one. For \<^verbatim>\<open>src\<close> ("abc",
  length and capacity 3, a block of 3 cells) and \<^verbatim>\<open>dst\<close> ("de", length 2) of
  \<open>sample\<close>, \<^verbatim>\<open>src += dst\<close> does not grow the buffer, since \<open>3 \<le> 2\<close> is false, and
  copies 2 bytes to the cells 3 and 4 of the block of 3 cells: a write out of bounds.
\<close>

theorem append_writes_past_buffer:
  "objs sample ''src'' = \<lparr>m_init = Ptr 1 0, m_length = 3, m_size = 3\<rparr> \<and>
   heap sample ! 1 = Live (map Some ''abc'') \<and>
   m_length (objs sample ''dst'') = 2 \<and>
   \<not> m_size (objs sample ''src'') \<le> m_length (objs sample ''dst'') \<and>
   plus_assign sample ''src'' ''dst'' = Inl OutOfBoundsWrite"
  by (simp add: sample_eq plus_assign_def resize_def and_then_def new_char_array_def
      set_init_def memcpy_def delete_array_def ptr_add_def Let_def eval_nat_numeral)

section \<open>The append scenario\<close>

text \<open>
  In \<^verbatim>\<open>custom_append\<close>, after \<^verbatim>\<open>lhs += rhs\<close> the buffer of \<^verbatim>\<open>lhs\<close> is a block of
  exactly 30 cells holding "first Element second addition ", with no terminator (and
  \<^verbatim>\<open>_length\<close> still 14). \<^verbatim>\<open>print_str\<close> bounds its loop by \<^verbatim>\<open>strlen(_init)\<close>, which
  reads past the end of the block. What is printed after the 30 characters depends on the
  bytes that follow the block in memory, which the embedding does not describe: there the
  rendering is a fault.
\<close>

lemma custom_append_render_reads_past_buffer:
  "(\<exists>s5. custom_append_build initial = Inr s5 \<and>
      objs s5 ''lhs'' = \<lparr>m_init = Ptr 4 0, m_length = 14, m_size = 14\<rparr> \<and>
      heap s5 ! 4 = Live (map Some ''first Element second addition '') \<and>
      length ''first Element second addition '' = 30 \<and>
      strlen s5 (m_init (objs s5 ''lhs'')) = Inl OutOfBoundsRead \<and>
      print_str s5 ''lhs'' ''lhs'' = Inl OutOfBoundsRead) \<and>
   custom_append initial = Inl OutOfBoundsRead"
proof -
  define s5 where "s5 =
     \<lparr>heap = [Live (map Some ''first Element '' @ [Some NUL]), Freed,
                   Live (map Some ''second addition '' @ [Some NUL]),
                   Live (map Some ''second addition ''),
                   Live (map Some ''first Element second addition '')],
           objs = (\<lambda>x. \<lparr>m_init = nullptr, m_length = 0, m_size = 0\<rparr>)
                    (''rhs'' := \<lparr>m_init = Ptr 3 0, m_length = 16, m_size = 16\<rparr>,
                     ''lhs'' := \<lparr>m_init = Ptr 4 0, m_length = 14, m_size = 14\<rparr>),
           out = ''custom append (My_string)'' @ nl\<rparr>"
  have b: "custom_append_build initial = Inr s5"
    unfolding s5_def by (rule custom_append_build_initial)
  have o: "objs s5 ''lhs'' = \<lparr>m_init = Ptr 4 0, m_length = 14, m_size = 14\<rparr>"
    by (simp add: s5_def)
  have h: "heap s5 ! 4 = Live (map Some ''first Element second addition '')"
    by (simp add: s5_def eval_nat_numeral)
  have l: "length ''first Element second addition '' = 30"
    by simp
  have sl: "strlen s5 (m_init (objs s5 ''lhs'')) = Inl OutOfBoundsRead"
    by (simp add: o strlen_def cells_at_def s5_def eval_nat_numeral)
  have p: "print_str s5 ''lhs'' ''lhs'' = Inl OutOfBoundsRead"
    by (rule print_str_unterminated[where b = 4 and str = "''first Element second addition ''"])
       (simp_all add: o h, simp add: s5_def)
  have c: "custom_append initial = Inl OutOfBoundsRead"
    by (simp add: custom_append_def b p and_then_def)
  from b o h l sl p c show ?thesis
    by blast
qed

section \<open>Composition\<close>

text \<open>
  Claim C7. The move constructor of \<^verbatim>\<open>My_custom\<close> leaves the member of the new object
  with the wrapped string the source had, and the source with what the library leaves in a
  moved-from string; it prints the trace of the member's default constructor, then of the
  member's move assignment, then its own. For a default-constructed source the wrapped string
  is "default". The copy constructor would print "My_custom-move failed!" instead. The last
  equation is the complete output of \<^verbatim>\<open>case_4\<close>.
\<close>

theorem My_custom_move_transfers_member:
  "(case My_custom_move residue rhs cout of
      (lhs, rhs', cout') \<Rightarrow>
        std_string (m_str lhs) = std_string (m_str rhs) \<and>
        std_string (m_str rhs') = residue \<and>
        cout' = cout @ ''Std_string - Default constructor called'' @ nl
                     @ ''Std_string - move assignation called'' @ nl
                     @ ''My_custom - move constructor called'' @ nl) \<and>
   (case My_custom_default cout of
      (src, cout1) \<Rightarrow>
        std_string (m_str src) = ''default'' \<and>
        (case My_custom_move residue src cout1 of
           (tgt, src', cout2) \<Rightarrow>
             std_string (m_str tgt) = ''default'' \<and>
             cout2 = cout1 @ ''Std_string - Default constructor called'' @ nl
                           @ ''Std_string - move assignation called'' @ nl
                           @ ''My_custom - move constructor called'' @ nl)) \<and>
   snd (My_custom_copy rhs cout) = cout @ ''My_custom-move failed!'' @ nl \<and>
   case_4 residue [] =
     ''Trying to move (Case 4)'' @ nl
     @ ''Std_string - Default constructor called'' @ nl
     @ ''My_custom-Default constructor called'' @ nl
     @ ''Std_string - Default constructor called'' @ nl
     @ ''Std_string - move assignation called'' @ nl
     @ ''My_custom - move constructor called'' @ nl
     @ ''My_custom - Destructor called'' @ nl
     @ ''Std_string - Destructor called'' @ nl
     @ ''My_custom - Destructor called'' @ nl
     @ ''Std_string - Destructor called'' @ nl"
  by (simp add: My_custom_move_def My_custom_default_def My_custom_copy_def Std_string_default_def
      Std_string_move_assign_def My_custom_destroy_def Std_string_destroy_def case_4_def)

end
